theory Spec2Isabelle
  imports Main
begin

unbundle bit_operations_syntax

section \<open>Results of running Go code\<close>

text \<open>
  A Go function of the solver either returns a value, or panics (an index out of range),
  or, in the model, runs out of the fuel that bounds the depth of its recursion.
\<close>

datatype 'a res = Diverge | Panic | Ret 'a

text \<open>Go's bounds-checked read \<open>xs[i]\<close>.\<close>

primrec rd :: "'a list \<Rightarrow> nat \<Rightarrow> 'a res" where
  "rd [] i = Panic"
| "rd (x # xs) i = (case i of 0 \<Rightarrow> Ret x | Suc j \<Rightarrow> rd xs j)"

section \<open>Constants and the tables built by \<open>init\<close>\<close>

definition N :: nat where
  "N = 9"

definition ALL_DIGITS :: int where
  "ALL_DIGITS = 511"

definition DIGITS :: "int list" where
  "DIGITS = [push_bit 0 1, push_bit 1 1, push_bit 2 1, push_bit 3 1, push_bit 4 1,
             push_bit 5 1, push_bit 6 1, push_bit 7 1, push_bit 8 1]"

definition ROWS :: "nat list" where
  "ROWS = [0, 1, 2, 3, 4, 5, 6, 7, 8]"

definition COLS :: "nat list" where
  "COLS = ROWS"

definition SQUARES :: "nat list" where
  "SQUARES = [0 ..< N * N]"

definition BLOCKS :: "nat list list" where
  "BLOCKS = [[0, 1, 2], [3, 4, 5], [6, 7, 8]]"

text \<open>\<open>cross\<close>: all squares in the intersection of the rows and the columns, row by row.\<close>

definition cross :: "nat list \<Rightarrow> nat list \<Rightarrow> nat list" where
  "cross rows cols = concat (map (\<lambda>r. map (\<lambda>c. N * r + c) cols) rows)"

primrec member_of :: "nat \<Rightarrow> nat list \<Rightarrow> bool" where
  "member_of item [] = False"
| "member_of item (x # xs) = (if x = item then True else member_of item xs)"

text \<open>The 27 units: the rows, then the columns, then the blocks.\<close>

definition ALL_UNITS :: "nat list list" where
  "ALL_UNITS = map (\<lambda>r. cross [r] COLS) ROWS
             @ map (\<lambda>c. cross ROWS [c]) COLS
             @ concat (map (\<lambda>rb. map (\<lambda>cb. cross rb cb) BLOCKS) BLOCKS)"

text \<open>\<open>UNITS[s]\<close>: the units that hold square \<open>s\<close>, in the order of \<open>ALL_UNITS\<close>.\<close>

definition UNITS :: "nat list list list" where
  "UNITS = map (\<lambda>s. filter (\<lambda>u. member_of s u) ALL_UNITS) SQUARES"

text \<open>
  \<open>PEERS[s]\<close>: the squares of the units of \<open>s\<close> other than \<open>s\<close>, each once, in the order
  they are met. \<open>add_peer\<close> is the body of the inner loop, on the part \<open>PEERS[s][:i]\<close>
  that is already written.
\<close>

definition add_peer :: "nat \<Rightarrow> nat list \<Rightarrow> nat \<Rightarrow> nat list" where
  "add_peer s acc s2 = (if s2 \<noteq> s \<and> \<not> member_of s2 acc then acc @ [s2] else acc)"

definition PEERS :: "nat list list" where
  "PEERS = map (\<lambda>s. foldl (add_peer s) [] (concat (UNITS ! s))) SQUARES"

text \<open>
  \<open>bits.OnesCount\<close> on a value that is not negative: the number of bits set.
\<close>

function OnesCount :: "int \<Rightarrow> int" where
  "OnesCount v = (if v \<le> 0 then 0 else v mod 2 + OnesCount (v div 2))"
  by pat_completeness auto
termination
  by (relation "measure nat") auto

declare OnesCount.simps [simp del]

text \<open>
  \<open>NUM_DIGITS\<close> is an array of \<open>ALL_DIGITS + 1\<close> entries, entry \<open>val\<close> holding
  \<open>bits.OnesCount(uint(val))\<close>; reading it at any other index panics.
\<close>

definition NUM_DIGITS :: "int \<Rightarrow> int res" where
  "NUM_DIGITS v = (if 0 \<le> v \<and> v \<le> ALL_DIGITS then Ret (OnesCount v) else Panic)"

section \<open>Constraint propagation\<close>

text \<open>
  The inner loop of \<open>dualConsistent\<close>: count the places of the unit where \<open>d\<close> can go,
  stopping at the second one; \<open>dplace\<close> is the first place found, \<open>- 1\<close> when there is
  none. Reading the grid at \<open>- 1\<close> would panic: \<open>dual_units\<close> below has this branch.
\<close>

fun dplaces :: "int list \<Rightarrow> int \<Rightarrow> nat list \<Rightarrow> nat \<Rightarrow> int \<Rightarrow> (nat \<times> int) res" where
  "dplaces grid d [] dPlaces dplace = Ret (dPlaces, dplace)"
| "dplaces grid d (s2 # u) dPlaces dplace =
     (case rd grid s2 of
        Ret v \<Rightarrow>
          if v AND d > 0 then
            (if dPlaces + 1 > 1 then Ret (dPlaces + 1, dplace)
             else dplaces grid d u (dPlaces + 1) (int s2))
          else dplaces grid d u dPlaces dplace
      | Panic \<Rightarrow> Panic
      | Diverge \<Rightarrow> Diverge)"

text \<open>
  The measures for the termination of the functions below: each call either uses up fuel
  or works on a shorter list at the same fuel.
\<close>

definition call_fuel ::
  "((nat \<times> int list option \<times> nat \<times> int) + (nat \<times> int list \<times> nat list \<times> int) +
    (nat \<times> int list \<times> nat \<times> int)) +
   ((nat \<times> int list \<times> nat) + (nat \<times> int list \<times> nat \<times> int) +
    (nat \<times> int list \<times> nat list list \<times> int)) \<Rightarrow> nat" where
  "call_fuel c = (case c of
       Inl (Inl (n, _)) \<Rightarrow> n
     | Inl (Inr (Inl (n, _))) \<Rightarrow> n
     | Inl (Inr (Inr (n, _))) \<Rightarrow> n
     | Inr (Inl (n, _)) \<Rightarrow> n
     | Inr (Inr (Inl (n, _))) \<Rightarrow> n
     | Inr (Inr (Inr (n, _))) \<Rightarrow> n)"

definition call_rank ::
  "((nat \<times> int list option \<times> nat \<times> int) + (nat \<times> int list \<times> nat list \<times> int) +
    (nat \<times> int list \<times> nat \<times> int)) +
   ((nat \<times> int list \<times> nat) + (nat \<times> int list \<times> nat \<times> int) +
    (nat \<times> int list \<times> nat list list \<times> int)) \<Rightarrow> nat" where
  "call_rank c = (case c of
       Inl (Inl _) \<Rightarrow> 1
     | Inl (Inr (Inl (_, _, ps, _))) \<Rightarrow> 1 + length ps
     | Inl (Inr (Inr _)) \<Rightarrow> 0
     | Inr (Inl _) \<Rightarrow> 0
     | Inr (Inr (Inl _)) \<Rightarrow> 0
     | Inr (Inr (Inr (_, _, us, _))) \<Rightarrow> 2 + length us)"

text \<open>
  \<open>fill\<close>, \<open>eliminate\<close>, \<open>arcConsistent\<close> and \<open>dualConsistent\<close> call each other and change
  the grid in place. Each takes the contents of the grid and returns its answer with the
  contents it leaves behind. The first argument bounds the depth of the calls.
  \<open>fill\<close> answers \<open>True\<close> where the Go function returns the grid and \<open>False\<close> where it
  returns \<open>nil\<close>; a \<open>nil\<close> grid is \<open>None\<close>.
\<close>

function (sequential) fill :: "nat \<Rightarrow> int list option \<Rightarrow> nat \<Rightarrow> int \<Rightarrow> (bool \<times> int list) res"
  and fill_peers :: "nat \<Rightarrow> int list \<Rightarrow> nat list \<Rightarrow> int \<Rightarrow> (bool \<times> int list) res"
  and eliminate :: "nat \<Rightarrow> int list \<Rightarrow> nat \<Rightarrow> int \<Rightarrow> (bool \<times> int list) res"
  and arcConsistent :: "nat \<Rightarrow> int list \<Rightarrow> nat \<Rightarrow> (bool \<times> int list) res"
  and dualConsistent :: "nat \<Rightarrow> int list \<Rightarrow> nat \<Rightarrow> int \<Rightarrow> (bool \<times> int list) res"
  and dual_units :: "nat \<Rightarrow> int list \<Rightarrow> nat list list \<Rightarrow> int \<Rightarrow> (bool \<times> int list) res"
where
  "fill 0 gopt s d = Diverge"
| "fill (Suc n) None s d = Ret (False, [])"
| "fill (Suc n) (Some grid) s d =
     (case rd grid s of
        Ret v \<Rightarrow>
          if v AND d = 0 then Ret (False, grid)
          else (case rd PEERS s of
                  Ret ps \<Rightarrow> fill_peers n (grid[s := d]) ps d
                | Panic \<Rightarrow> Panic
                | Diverge \<Rightarrow> Diverge)
      | Panic \<Rightarrow> Panic
      | Diverge \<Rightarrow> Diverge)"
| "fill_peers n grid [] d = Ret (True, grid)"
| "fill_peers n grid (p # ps) d =
     (case eliminate n grid p d of
        Ret (ok, grid') \<Rightarrow> if \<not> ok then Ret (False, grid') else fill_peers n grid' ps d
      | Panic \<Rightarrow> Panic
      | Diverge \<Rightarrow> Diverge)"
| "eliminate 0 grid s d = Diverge"
| "eliminate (Suc n) grid s d =
     (case rd grid s of
        Ret v \<Rightarrow>
          if v AND d = 0 then Ret (True, grid)
          else (case arcConsistent n (grid[s := v - d]) s of
                  Ret (ok, grid') \<Rightarrow>
                    if ok then dualConsistent n grid' s d else Ret (False, grid')
                | Panic \<Rightarrow> Panic
                | Diverge \<Rightarrow> Diverge)
      | Panic \<Rightarrow> Panic
      | Diverge \<Rightarrow> Diverge)"
| "arcConsistent 0 grid s = Diverge"
| "arcConsistent (Suc n) grid s =
     (case rd grid s of
        Ret v \<Rightarrow>
          (case NUM_DIGITS v of
             Ret count \<Rightarrow>
               if count \<ge> 2 then Ret (True, grid)
               else if count = 1 then fill n (Some grid) s v
               else Ret (False, grid)
           | Panic \<Rightarrow> Panic
           | Diverge \<Rightarrow> Diverge)
      | Panic \<Rightarrow> Panic
      | Diverge \<Rightarrow> Diverge)"
| "dualConsistent 0 grid s d = Diverge"
| "dualConsistent (Suc n) grid s d =
     (case rd UNITS s of
        Ret us \<Rightarrow> dual_units n grid us d
      | Panic \<Rightarrow> Panic
      | Diverge \<Rightarrow> Diverge)"
| "dual_units n grid [] d = Ret (True, grid)"
| "dual_units n grid (u # us) d =
     (case dplaces grid d u 0 (- 1) of
        Ret (dPlaces, dplace) \<Rightarrow>
          if dPlaces = 0 then Ret (False, grid)
          else if dPlaces = 1 then
            (if dplace < 0 then Panic
             else (case fill n (Some grid) (nat dplace) d of
                     Ret (ok, grid') \<Rightarrow>
                       if \<not> ok then Ret (False, grid') else dual_units n grid' us d
                   | Panic \<Rightarrow> Panic
                   | Diverge \<Rightarrow> Diverge))
          else dual_units n grid us d
      | Panic \<Rightarrow> Panic
      | Diverge \<Rightarrow> Diverge)"
  by pat_completeness auto

termination
  by (relation "measures [call_fuel, call_rank]") (auto simp: call_fuel_def call_rank_def)

section \<open>Reading a puzzle\<close>

text \<open>
  A line is read as its runes (\<open>[]rune(gridString)\<close>), a rune being its code point.
  \<open>runes\<close> gives the runes of an ASCII string.
\<close>

type_synonym rune = int

definition runes :: "string \<Rightarrow> rune list" where
  "runes str = map (\<lambda>c. int (of_char c)) str"

datatype format_error = TooFewDigits nat | TooManyDigits

text \<open>\<open>strconv.Atoi\<close> on the one-rune string of a rune from \<open>'1'\<close> to \<open>'9'\<close>.\<close>

definition atoi_digit :: "rune \<Rightarrow> int" where
  "atoi_digit r = r - 48"

text \<open>
  The loop of \<open>parseGrid\<close> from rune \<open>i\<close> on: \<open>s\<close> counts the squares written, \<open>d\<close> is the
  index of the last rune the loop went through.
\<close>

fun parse_loop :: "rune list \<Rightarrow> nat \<Rightarrow> int list \<Rightarrow> nat \<Rightarrow> nat \<Rightarrow> int list \<times> nat \<times> nat" where
  "parse_loop [] i grid s d = (grid, s, d)"
| "parse_loop (r # rs) i grid s d =
     (if s = N * N then (grid, s, d)
      else if 49 \<le> r \<and> r \<le> 57 then
        parse_loop rs (i + 1) (grid[s := DIGITS ! nat (atoi_digit r - 1)]) (s + 1) i
      else if r = 48 \<or> r = 46 then
        parse_loop rs (i + 1) (grid[s := ALL_DIGITS]) (s + 1) i
      else parse_loop rs (i + 1) grid s i)"

text \<open>\<open>strings.ContainsAny(str, ".0123456789")\<close> on the string of the runes \<open>rs\<close>.\<close>

definition contains_digit_or_dot :: "rune list \<Rightarrow> bool" where
  "contains_digit_or_dot rs = list_ex (\<lambda>r. r = 46 \<or> (48 \<le> r \<and> r \<le> 57)) rs"

definition parseGrid :: "rune list \<Rightarrow> (format_error + int list) res" where
  "parseGrid gridRunes =
     (case parse_loop gridRunes 0 (replicate (N * N) 0) 0 0 of
        (grid, s, d) \<Rightarrow>
          if s < N * N then Ret (Inl (TooFewDigits s))
          else if d + 1 > length gridRunes then Panic
          else if contains_digit_or_dot (drop (d + 1) gridRunes) then Ret (Inl TooManyDigits)
          else Ret (Inr grid))"

section \<open>Initialization\<close>

text \<open>
  The loop of \<open>initialize\<close> over the square indices: the answer of \<open>fill\<close> is dropped, the
  grid it leaves behind is kept.
\<close>

fun init_loop :: "nat \<Rightarrow> int list \<Rightarrow> int list \<Rightarrow> nat list \<Rightarrow> int list res" where
  "init_loop n puzzle grid [] = Ret grid"
| "init_loop n puzzle grid (s # ss) =
     (case rd puzzle s of
        Ret v \<Rightarrow>
          if v \<noteq> ALL_DIGITS then
            (case fill n (Some grid) s v of
               Ret (ok, grid') \<Rightarrow> init_loop n puzzle grid' ss
             | Panic \<Rightarrow> Panic
             | Diverge \<Rightarrow> Diverge)
          else init_loop n puzzle grid ss
      | Panic \<Rightarrow> Panic
      | Diverge \<Rightarrow> Diverge)"

text \<open>\<open>initialize\<close> returns the grid it made: \<open>Some\<close> of its contents, \<open>None\<close> being \<open>nil\<close>.\<close>

definition initialize :: "nat \<Rightarrow> int list \<Rightarrow> int list option res" where
  "initialize n puzzle =
     (case init_loop n puzzle (replicate (N * N) ALL_DIGITS) [0 ..< length SQUARES] of
        Ret grid \<Rightarrow> Ret (Some grid)
      | Panic \<Rightarrow> Panic
      | Diverge \<Rightarrow> Diverge)"

section \<open>Search\<close>

fun select_loop :: "int list \<Rightarrow> nat list \<Rightarrow> int \<Rightarrow> int \<Rightarrow> int res" where
  "select_loop grid [] square mint = Ret square"
| "select_loop grid (s # ss) square mint =
     (case rd grid s of
        Ret v \<Rightarrow>
          (case NUM_DIGITS v of
             Ret c \<Rightarrow>
               if c = 2 then Ret (int s)
               else if c > 1 \<and> c < mint then select_loop grid ss (int s) c
               else select_loop grid ss square mint
           | Panic \<Rightarrow> Panic
           | Diverge \<Rightarrow> Diverge)
      | Panic \<Rightarrow> Panic
      | Diverge \<Rightarrow> Diverge)"

definition selectSquare :: "int list \<Rightarrow> int res" where
  "selectSquare grid = select_loop grid SQUARES (- 1) (int N + 1)"

text \<open>
  The grids that \<open>search\<close> works on live in two places: the grid made by \<open>initialize\<close> and
  the slots of the grid pool. A grid argument or result of \<open>search\<close> is \<open>nil\<close> or a slice
  of one of them.
\<close>

datatype gref = NilGrid | Made | Slot nat

record store =
  made :: "int list"
  gridpool :: "int list list"
  backtracks :: int

definition contents :: "store \<Rightarrow> gref \<Rightarrow> int list" where
  "contents st r = (case r of NilGrid \<Rightarrow> [] | Made \<Rightarrow> made st | Slot k \<Rightarrow> gridpool st ! k)"

text \<open>Go's \<open>copy(dst, src)\<close>: as many elements as both have.\<close>

definition copy_into :: "'a list \<Rightarrow> 'a list \<Rightarrow> 'a list" where
  "copy_into dst src =
     take (min (length dst) (length src)) src @ drop (min (length dst) (length src)) dst"

function (sequential) search :: "nat \<Rightarrow> store \<Rightarrow> gref \<Rightarrow> nat \<Rightarrow> (gref \<times> store) res"
  and search_digits ::
    "nat \<Rightarrow> store \<Rightarrow> gref \<Rightarrow> nat \<Rightarrow> nat \<Rightarrow> int list \<Rightarrow> (gref \<times> store) res"
where
  "search 0 st grid level = Diverge"
| "search (Suc n) st NilGrid level = Ret (NilGrid, st)"
| "search (Suc n) st grid level =
     (case selectSquare (contents st grid) of
        Ret s \<Rightarrow>
          if s = - 1 then Ret (grid, st)
          else if s < 0 then Panic
          else search_digits n st grid (nat s) level DIGITS
      | Panic \<Rightarrow> Panic
      | Diverge \<Rightarrow> Diverge)"
| "search_digits n st grid s level [] = Ret (NilGrid, st)"
| "search_digits n st grid s level (d # ds) =
     (case rd (contents st grid) s of
        Ret v \<Rightarrow>
          if d AND v > 0 then
            (case rd (gridpool st) level of
               Ret slot \<Rightarrow>
                 (case fill n (Some (copy_into slot (contents st grid))) s d of
                    Ret (ok, grid') \<Rightarrow>
                      (case search n (st\<lparr>gridpool := (gridpool st)[level := grid']\<rparr>)
                              (if ok then Slot level else NilGrid) (level + 1) of
                         Ret (result, st') \<Rightarrow>
                           if result \<noteq> NilGrid then Ret (result, st')
                           else search_digits n (st'\<lparr>backtracks := backtracks st' + 1\<rparr>)
                                  grid s level ds
                       | Panic \<Rightarrow> Panic
                       | Diverge \<Rightarrow> Diverge)
                  | Panic \<Rightarrow> Panic
                  | Diverge \<Rightarrow> Diverge)
             | Panic \<Rightarrow> Panic
             | Diverge \<Rightarrow> Diverge)
          else search_digits n st grid s level ds
      | Panic \<Rightarrow> Panic
      | Diverge \<Rightarrow> Diverge)"
  by pat_completeness auto

termination
  by (relation "measures [\<lambda>c. case c of Inl (n, _) \<Rightarrow> n | Inr (n, _) \<Rightarrow> n,
                          \<lambda>c. case c of Inl _ \<Rightarrow> 0 | Inr (_, _, _, _, _, ds) \<Rightarrow> 1 + length ds]")
     auto

section \<open>Verification\<close>

text \<open>The first loop of \<open>verify\<close>, over the squares.\<close>

fun verify_squares :: "int list \<Rightarrow> int list \<Rightarrow> nat list \<Rightarrow> bool res" where
  "verify_squares grid puzzle [] = Ret True"
| "verify_squares grid puzzle (s # ss) =
     (case rd grid s of
        Ret v \<Rightarrow>
          (case NUM_DIGITS v of
             Ret c \<Rightarrow>
               if c \<noteq> 1 then Ret False
               else (case rd puzzle s of
                       Ret w \<Rightarrow>
                         (case NUM_DIGITS w of
                            Ret cp \<Rightarrow>
                              if cp = 1 \<and> v \<noteq> w then Ret False
                              else verify_squares grid puzzle ss
                          | Panic \<Rightarrow> Panic
                          | Diverge \<Rightarrow> Diverge)
                     | Panic \<Rightarrow> Panic
                     | Diverge \<Rightarrow> Diverge)
           | Panic \<Rightarrow> Panic
           | Diverge \<Rightarrow> Diverge)
      | Panic \<Rightarrow> Panic
      | Diverge \<Rightarrow> Diverge)"

text \<open>
  The inner loop of the second part, \<open>for s := range u\<close>: with one variable, \<open>range\<close> gives
  the indices of \<open>u\<close>, so \<open>ss\<close> is \<open>[0 ..< length u]\<close>.
\<close>

fun unit_digits :: "int list \<Rightarrow> nat list \<Rightarrow> int \<Rightarrow> int res" where
  "unit_digits grid [] acc = Ret acc"
| "unit_digits grid (s # ss) acc =
     (case rd grid s of
        Ret v \<Rightarrow> unit_digits grid ss (acc OR v)
      | Panic \<Rightarrow> Panic
      | Diverge \<Rightarrow> Diverge)"

fun verify_units :: "int list \<Rightarrow> nat list list \<Rightarrow> bool res" where
  "verify_units grid [] = Ret True"
| "verify_units grid (u # us) =
     (case unit_digits grid [0 ..< length u] 0 of
        Ret ud \<Rightarrow> if ud \<noteq> ALL_DIGITS then Ret False else verify_units grid us
      | Panic \<Rightarrow> Panic
      | Diverge \<Rightarrow> Diverge)"

definition verify :: "int list option \<Rightarrow> int list \<Rightarrow> bool res" where
  "verify gopt puzzle =
     (case gopt of
        None \<Rightarrow> Ret False
      | Some grid \<Rightarrow>
          (case verify_squares grid puzzle SQUARES of
             Ret ok \<Rightarrow> if \<not> ok then Ret False else verify_units grid ALL_UNITS
           | Panic \<Rightarrow> Panic
           | Diverge \<Rightarrow> Diverge))"

section \<open>Solving one puzzle\<close>

text \<open>
  What \<open>solveList\<close> does with one puzzle when the search is on: \<open>initialize\<close>, then
  \<open>search\<close> at level 0 with the pool of \<open>N * N\<close> grids. The result is \<open>nil\<close> or the
  contents of the grid returned, with the store left behind.
\<close>

definition new_gridpool :: "int list list" where
  "new_gridpool = replicate (N * N) (replicate (N * N) 0)"

definition result_grid :: "gref \<times> store \<Rightarrow> int list option" where
  "result_grid rs = (case fst rs of NilGrid \<Rightarrow> None | r \<Rightarrow> Some (contents (snd rs) r))"

definition solve :: "nat \<Rightarrow> int list \<Rightarrow> (gref \<times> store) res" where
  "solve n puzzle =
     (case initialize n puzzle of
        Ret None \<Rightarrow> search n \<lparr>made = [], gridpool = new_gridpool, backtracks = 0\<rparr> NilGrid 0
      | Ret (Some grid) \<Rightarrow>
          search n \<lparr>made = grid, gridpool = new_gridpool, backtracks = 0\<rparr> Made 0
      | Panic \<Rightarrow> Panic
      | Diverge \<Rightarrow> Diverge)"

section \<open>Notions of the specification\<close>

text \<open>
  A meaningful character of a line is a digit from \<open>'1'\<close> to \<open>'9'\<close> or a blank,
  \<open>'0'\<close> or \<open>'.'\<close>; \<open>cell_of\<close> is the grid entry it stands for.
\<close>

definition meaningful :: "rune \<Rightarrow> bool" where
  "meaningful r \<longleftrightarrow> (49 \<le> r \<and> r \<le> 57) \<or> r = 48 \<or> r = 46"

definition digit_or_dot :: "rune \<Rightarrow> bool" where
  "digit_or_dot r \<longleftrightarrow> r = 46 \<or> (48 \<le> r \<and> r \<le> 57)"

definition cell_of :: "rune \<Rightarrow> int" where
  "cell_of r = (if 49 \<le> r \<and> r \<le> 57 then push_bit (nat (r - 49)) 1 else ALL_DIGITS)"

text \<open>The puzzle of the specification's scenario, as a line and as the grid parsed from it.\<close>

definition norvig_line :: string where
  "norvig_line =
     ''003020600900305001001806400008102900700000008006708200002609500800203009005010300''"

definition norvig_puzzle :: "int list" where
  "norvig_puzzle =
    [511, 511, 4, 511, 2, 511, 32, 511, 511, 256, 511, 511, 4, 511, 16, 511, 511, 1, 511, 511,
     1, 128, 511, 32, 8, 511, 511, 511, 511, 128, 1, 511, 2, 256, 511, 511, 64, 511, 511, 511,
     511, 511, 511, 511, 128, 511, 511, 32, 64, 511, 128, 2, 511, 511, 511, 511, 2, 32, 511,
     256, 16, 511, 511, 128, 511, 511, 2, 511, 4, 511, 511, 256, 511, 511, 16, 511, 1, 511, 4,
     511, 511]"

text \<open>
  The number of candidate digits of a square, and what the specification asks of the
  square that \<open>selectSquare\<close> returns: \<open>- 1\<close> when no square has more than one candidate,
  else a square with more than one candidate that has the fewest of them, the one of
  lowest index among these.
\<close>

definition candidates :: "int list \<Rightarrow> nat \<Rightarrow> int" where
  "candidates grid s = OnesCount (grid ! s)"

definition fewest_first :: "int list \<Rightarrow> int \<Rightarrow> bool" where
  "fewest_first grid r \<longleftrightarrow>
     (if \<forall>s<81. candidates grid s \<le> 1 then r = - 1
      else 0 \<le> r \<and> r < 81 \<and> 1 < candidates grid (nat r) \<and>
           (\<forall>t<81. 1 < candidates grid t \<longrightarrow> candidates grid (nat r) \<le> candidates grid t) \<and>
           (\<forall>t<nat r. 1 < candidates grid t \<longrightarrow> candidates grid (nat r) < candidates grid t))"

text \<open>What the loop of \<open>selectSquare\<close> has established before it looks at square \<open>k\<close>.\<close>

definition select_inv :: "int list \<Rightarrow> nat \<Rightarrow> int \<Rightarrow> int \<Rightarrow> bool" where
  "select_inv grid k sq m \<longleftrightarrow>
     3 \<le> m \<and>
     ((sq = - 1 \<and> m = 10 \<and> (\<forall>t<k. candidates grid t \<le> 1)) \<or>
      (0 \<le> sq \<and> nat sq < k \<and> candidates grid (nat sq) = m \<and>
       (\<forall>t<k. 1 < candidates grid t \<longrightarrow> m \<le> candidates grid t) \<and>
       (\<forall>t<nat sq. 1 < candidates grid t \<longrightarrow> m < candidates grid t)))"

text \<open>The solution of the specification's scenario, and a store that holds it.\<close>

definition norvig_solution :: "int list" where
  "norvig_solution =
    [8, 128, 4, 256, 2, 1, 32, 16, 64, 256, 32, 64, 4, 8, 16, 128, 2, 1, 2, 16, 1, 128, 64, 32,
     8, 256, 4, 16, 8, 128, 1, 4, 2, 256, 64, 32, 64, 2, 256, 16, 32, 8, 1, 4, 128, 1, 4, 32,
     64, 256, 128, 2, 8, 16, 4, 64, 2, 32, 128, 256, 16, 1, 8, 128, 1, 8, 2, 16, 4, 64, 32,
     256, 32, 256, 16, 8, 1, 64, 4, 128, 2]"

definition solved_store :: store where
  "solved_store = \<lparr>made = norvig_solution, gridpool = [], backtracks = 0\<rparr>"

text \<open>A grid of single digits whose nine rows are all the same, so each column repeats a digit.\<close>

definition repeated_rows :: "int list" where
  "repeated_rows = concat (replicate 9 [1, 2, 4, 8, 16, 32, 64, 128, 256])"

text \<open>The number of bits set in a binary numeral.\<close>

primrec num_ones :: "num \<Rightarrow> int" where
  "num_ones Num.One = 1"
| "num_ones (Num.Bit0 n) = num_ones n"
| "num_ones (Num.Bit1 n) = 1 + num_ones n"

text \<open>
  The first 80 squares of the scenario's puzzle, the line of its solution, and a
  contradictory puzzle: the scenario's puzzle with a second 3 in its last row.
\<close>

definition norvig_given80 :: "int list" where
  "norvig_given80 =
    [511, 511, 4, 511, 2, 511, 32, 511, 511, 256, 511, 511, 4, 511, 16, 511, 511, 1, 511, 511, 1,
     128, 511, 32, 8, 511, 511, 511, 511, 128, 1, 511, 2, 256, 511, 511, 64, 511, 511, 511, 511,
     511, 511, 511, 128, 511, 511, 32, 64, 511, 128, 2, 511, 511, 511, 511, 2, 32, 511, 256, 16,
     511, 511, 128, 511, 511, 2, 511, 4, 511, 511, 256, 511, 511, 16, 511, 1, 511, 4, 511]"

definition norvig_solution_line :: string where
  "norvig_solution_line =
     ''483921657967345821251876493548132976729564138136798245372689514814253769695417382''"

definition contradictory_line :: string where
  "contradictory_line =
     ''003020600900305001001806400008102900700000008006708200002609500800203009005010303''"

definition contradictory_puzzle :: "int list" where
  "contradictory_puzzle = norvig_given80 @ [4]"

text \<open>
  A puzzle that gives the digit 1 twice in its first row and the digit 2 in its last
  square, the grid after the first of its givens is filled in, and the grid after the
  last one is.
\<close>

definition twice_one_puzzle :: "int list" where
  "twice_one_puzzle = [1, 1] @ replicate 78 511 @ [2]"

definition twice_one_first :: "int list" where
  "twice_one_first =
    [1, 510, 510, 510, 510, 510, 510, 510, 510, 510, 510, 510, 511, 511, 511, 511, 511, 511, 510,
     510, 510, 511, 511, 511, 511, 511, 511, 510, 511, 511, 511, 511, 511, 511, 511, 511, 510,
     511, 511, 511, 511, 511, 511, 511, 511, 510, 511, 511, 511, 511, 511, 511, 511, 511, 510,
     511, 511, 511, 511, 511, 511, 511, 511, 510, 511, 511, 511, 511, 511, 511, 511, 511, 510,
     511, 511, 511, 511, 511, 511, 511, 511]"

definition twice_one_grid :: "int list" where
  "twice_one_grid =
    [1, 510, 510, 510, 510, 510, 510, 510, 508, 510, 510, 510, 511, 511, 511, 511, 511, 509, 510,
     510, 510, 511, 511, 511, 511, 511, 509, 510, 511, 511, 511, 511, 511, 511, 511, 509, 510,
     511, 511, 511, 511, 511, 511, 511, 509, 510, 511, 511, 511, 511, 511, 511, 511, 509, 510,
     511, 511, 511, 511, 511, 509, 509, 509, 510, 511, 511, 511, 511, 511, 509, 509, 509, 508,
     509, 509, 509, 509, 509, 509, 509, 2]"

text \<open>
  A well-formed grid has 81 squares, each a bitset over the nine digits. After a step of
  the propagation no square has more candidates than before (\<open>shrinks\<close>), and after a
  step that succeeded no square that had a candidate is left without one (\<open>keeps\<close>).
  \<open>step_ok\<close> is what every step keeps: it does not panic, and its grid is well formed.
\<close>

definition wf_grid :: "int list \<Rightarrow> bool" where
  "wf_grid grid \<longleftrightarrow> length grid = 81 \<and> (\<forall>v\<in>set grid. 0 \<le> v \<and> v \<le> ALL_DIGITS)"

definition shrinks :: "int list \<Rightarrow> int list \<Rightarrow> bool" where
  "shrinks grid grid' \<longleftrightarrow> (\<forall>i<81. OnesCount (grid' ! i) \<le> OnesCount (grid ! i))"

definition keeps :: "int list \<Rightarrow> int list \<Rightarrow> bool" where
  "keeps grid grid' \<longleftrightarrow> (\<forall>i<81. grid ! i \<noteq> 0 \<longrightarrow> grid' ! i \<noteq> 0)"

definition succeeded :: "(bool \<times> int list) res \<Rightarrow> bool" where
  "succeeded r \<longleftrightarrow> (case r of Ret (ok, grid') \<Rightarrow> ok | _ \<Rightarrow> False)"

definition step_ok :: "int list \<Rightarrow> (bool \<times> int list) res \<Rightarrow> bool" where
  "step_ok grid r \<longleftrightarrow>
     (case r of
        Diverge \<Rightarrow> True
      | Panic \<Rightarrow> False
      | Ret (ok, grid') \<Rightarrow> wf_grid grid' \<and> shrinks grid grid' \<and> (ok \<longrightarrow> keeps grid grid'))"

text \<open>The four functions of the propagation keep \<open>step_ok\<close>, at a given fuel.\<close>

definition fill_ok :: "nat \<Rightarrow> bool" where
  "fill_ok n \<longleftrightarrow>
     (\<forall>g s d. wf_grid g \<longrightarrow> s < 81 \<longrightarrow> d \<in> set DIGITS \<longrightarrow> step_ok g (fill n (Some g) s d))"

definition elim_ok :: "nat \<Rightarrow> bool" where
  "elim_ok n \<longleftrightarrow>
     (\<forall>g s d. wf_grid g \<longrightarrow> s < 81 \<longrightarrow> d \<in> set DIGITS \<longrightarrow> step_ok g (eliminate n g s d))"

definition arc_ok :: "nat \<Rightarrow> bool" where
  "arc_ok n \<longleftrightarrow>
     (\<forall>g s. wf_grid g \<longrightarrow> s < 81 \<longrightarrow>
        step_ok g (arcConsistent n g s) \<and> (g ! s = 0 \<longrightarrow> \<not> succeeded (arcConsistent n g s)))"

definition dual_ok :: "nat \<Rightarrow> bool" where
  "dual_ok n \<longleftrightarrow>
     (\<forall>g s d. wf_grid g \<longrightarrow> s < 81 \<longrightarrow> d \<in> set DIGITS \<longrightarrow> step_ok g (dualConsistent n g s d))"

text \<open>
  The number of determined squares of a grid. The pool holds 81 grids of 81 squares; the
  grid that \<open>search\<close> works on at a level is the made one or a slot below the level, and
  it has at least as many determined squares as the level. A call of \<open>search\<close> that
  returns leaves the made grid and the slots below its level as they were.
\<close>

definition determined :: "int list \<Rightarrow> nat" where
  "determined grid = length (filter (\<lambda>v. OnesCount v = 1) grid)"

definition pool_ok :: "store \<Rightarrow> bool" where
  "pool_ok st \<longleftrightarrow> length (gridpool st) = 81 \<and> (\<forall>slot\<in>set (gridpool st). length slot = 81)"

definition grid_ok :: "store \<Rightarrow> gref \<Rightarrow> nat \<Rightarrow> bool" where
  "grid_ok st grid level \<longleftrightarrow>
     (grid = Made \<or> (\<exists>k<level. grid = Slot k)) \<and> wf_grid (contents st grid) \<and>
     level \<le> determined (contents st grid)"

definition search_ok :: "nat \<Rightarrow> store \<Rightarrow> (gref \<times> store) res \<Rightarrow> bool" where
  "search_ok level st r \<longleftrightarrow>
     (case r of
        Diverge \<Rightarrow> True
      | Panic \<Rightarrow> False
      | Ret (grid, st') \<Rightarrow>
          pool_ok st' \<and> made st' = made st \<and> (\<forall>k<level. gridpool st' ! k = gridpool st ! k))"

definition search_safe :: "nat \<Rightarrow> bool" where
  "search_safe n \<longleftrightarrow>
     (\<forall>st grid level. pool_ok st \<longrightarrow> (grid = NilGrid \<or> grid_ok st grid level) \<longrightarrow>
        search_ok level st (search n st grid level))"

text \<open>
  Two squares share a unit when they are in the same row, the same column or the same
  block; the peers of a square, by that description, in increasing order. Eliminating a
  digit at each square of a list in turn, stopping at the first elimination that fails.
\<close>

definition same_unit :: "nat \<Rightarrow> nat \<Rightarrow> bool" where
  "same_unit s t \<longleftrightarrow>
     s div 9 = t div 9 \<or> s mod 9 = t mod 9 \<or>
     (s div 27 = t div 27 \<and> s mod 9 div 3 = t mod 9 div 3)"

definition peers_of :: "nat \<Rightarrow> nat list" where
  "peers_of s = [t \<leftarrow> [0 ..< 81]. t \<noteq> s \<and> same_unit s t]"

fun eliminate_each :: "nat \<Rightarrow> int list \<Rightarrow> nat list \<Rightarrow> int \<Rightarrow> (bool \<times> int list) res" where
  "eliminate_each n grid [] d = Ret (True, grid)"
| "eliminate_each n grid (p # ps) d =
     (case eliminate n grid p d of
        Ret (ok, grid') \<Rightarrow> if ok then eliminate_each n grid' ps d else Ret (False, grid')
      | Panic \<Rightarrow> Panic
      | Diverge \<Rightarrow> Diverge)"

text \<open>
  The digits that are candidates of square \<open>s\<close>, in the order of \<open>DIGITS\<close>. Trying each
  digit of a list on the grid \<open>g\<close> at a level of the search: slot \<open>level\<close> of the pool
  receives a copy of \<open>g\<close> with the digit filled in at \<open>s\<close>; when the fill succeeded the
  search goes on from that slot, one level further. The first result that is not \<open>nil\<close>
  is returned; a digit that failed adds one to the count of backtracks before the next
  digit is tried.
\<close>

definition candidate_digits :: "int list \<Rightarrow> nat \<Rightarrow> int list" where
  "candidate_digits grid s = [d \<leftarrow> DIGITS. d AND grid ! s > 0]"

fun try_each ::
  "nat \<Rightarrow> store \<Rightarrow> int list \<Rightarrow> nat \<Rightarrow> nat \<Rightarrow> int list \<Rightarrow> (gref \<times> store) res"
where
  "try_each n st g s level [] = Ret (NilGrid, st)"
| "try_each n st g s level (d # ds) =
     (case fill n (Some g) s d of
        Ret (ok, g') \<Rightarrow>
          (case (if ok then search n (st\<lparr>gridpool := (gridpool st)[level := g']\<rparr>)
                              (Slot level) (level + 1)
                 else Ret (NilGrid, st\<lparr>gridpool := (gridpool st)[level := g']\<rparr>)) of
             Ret (result, st') \<Rightarrow>
               if result \<noteq> NilGrid then Ret (result, st')
               else try_each n (st'\<lparr>backtracks := backtracks st' + 1\<rparr>) g s level ds
           | Panic \<Rightarrow> Panic
           | Diverge \<Rightarrow> Diverge)
      | Panic \<Rightarrow> Panic
      | Diverge \<Rightarrow> Diverge)"

text \<open>The solution of the scenario with the candidate 1 put back into its first square.\<close>

definition open_first :: "int list" where
  "open_first = norvig_solution[0 := 9]"

section \<open>Reading a puzzle: format errors and grid entries\<close>

lemma DIGITS_nth: "49 \<le> r \<Longrightarrow> r \<le> 57 \<Longrightarrow> DIGITS ! nat (atoi_digit r - 1) = cell_of r"
proof -
  assume a: "49 \<le> r" "r \<le> 57"
  then have "r \<in> {49, 50, 51, 52, 53, 54, 55, 56, 57}" by auto
  then show ?thesis
    by (auto simp: DIGITS_def atoi_digit_def cell_of_def)
qed

lemma parse_loop_full: "parse_loop rs i grid (N * N) d = (grid, N * N, d)"
  by (cases rs) simp_all

lemma parse_loop_Cons:
  "s < 81 \<Longrightarrow> parse_loop (r # rs) i grid s d =
     (if meaningful r then parse_loop rs (i + 1) (grid[s := cell_of r]) (s + 1) i
      else parse_loop rs (i + 1) grid s i)"
  by (auto simp: N_def meaningful_def DIGITS_nth) (auto simp: cell_of_def)

declare parse_loop.simps(2) [simp del]

lemma parse_loop_count:
  "s + length (filter meaningful rs) < 81 \<Longrightarrow>
   fst (snd (parse_loop rs i grid s d)) = s + length (filter meaningful rs)"
proof (induction rs arbitrary: i grid s d)
  case Nil
  then show ?case by simp
next
  case (Cons r rs)
  then have lt: "s < 81" by simp
  show ?case
  proof (cases "meaningful r")
    case True
    with Cons.prems have "(s + 1) + length (filter meaningful rs) < 81" by simp
    from Cons.IH [OF this] True lt show ?thesis by (simp add: parse_loop_Cons)
  next
    case False
    with Cons.prems have "s + length (filter meaningful rs) < 81" by simp
    from Cons.IH [OF this] False lt show ?thesis by (simp add: parse_loop_Cons)
  qed
qed

lemma drop_shift: "i + 1 \<le> d' \<Longrightarrow> drop (d' + 1 - i) (r # rs) = drop (d' + 1 - (i + 1)) rs"
  by (simp add: Suc_diff_le)

lemma parse_loop_stop:
  "s < 81 \<Longrightarrow> 81 \<le> s + length (filter meaningful rs) \<Longrightarrow>
   (case parse_loop rs i grid s d of (g', s', d') \<Rightarrow>
      s' = 81 \<and> i \<le> d' \<and> d' < i + length rs \<and>
      length (filter meaningful (drop (d' + 1 - i) rs)) = s + length (filter meaningful rs) - 81)"
proof (induction rs arbitrary: i grid s d)
  case Nil
  then show ?case by simp
next
  case (Cons r rs)
  show ?case
  proof (cases "meaningful r")
    case True
    show ?thesis
    proof (cases "s + 1 = 81")
      case True
      have "parse_loop (r # rs) i grid s d = (grid[s := cell_of r], 81, i)"
        using parse_loop_full [of rs "i + 1" "grid[s := cell_of r]" i] True \<open>meaningful r\<close> Cons.prems(1)
        by (simp add: parse_loop_Cons N_def)
      then show ?thesis using True \<open>meaningful r\<close> by simp
    next
      case False
      with Cons.prems have lt: "s + 1 < 81" by simp
      from Cons.prems \<open>meaningful r\<close> have ge: "81 \<le> (s + 1) + length (filter meaningful rs)" by simp
      obtain g' s' d' where p: "parse_loop rs (i + 1) (grid[s := cell_of r]) (s + 1) i = (g', s', d')"
        by (cases "parse_loop rs (i + 1) (grid[s := cell_of r]) (s + 1) i") auto
      from Cons.IH [OF lt ge, of "i + 1" "grid[s := cell_of r]" i] p
      have ih: "s' = 81" "i + 1 \<le> d'" "d' < i + 1 + length rs"
        "length (filter meaningful (drop (d' + 1 - (i + 1)) rs)) = s + 1 + length (filter meaningful rs) - 81"
        by auto
      have "parse_loop (r # rs) i grid s d = (g', s', d')"
        using p \<open>meaningful r\<close> Cons.prems(1) by (simp add: parse_loop_Cons)
      then show ?thesis using ih drop_shift [OF ih(2), of r rs] \<open>meaningful r\<close> by simp
    qed
  next
    case False
    from Cons.prems False have ge: "81 \<le> s + length (filter meaningful rs)" by simp
    obtain g' s' d' where p: "parse_loop rs (i + 1) grid s i = (g', s', d')"
      by (cases "parse_loop rs (i + 1) grid s i") auto
    from Cons.IH [OF Cons.prems(1) ge, of "i + 1" grid i] p
    have ih: "s' = 81" "i + 1 \<le> d'" "d' < i + 1 + length rs"
      "length (filter meaningful (drop (d' + 1 - (i + 1)) rs)) = s + length (filter meaningful rs) - 81"
      by auto
    have "parse_loop (r # rs) i grid s d = (g', s', d')"
      using p False Cons.prems(1) by (simp add: parse_loop_Cons)
    then show ?thesis using ih drop_shift [OF ih(2), of r rs] False by simp
  qed
qed

lemma parse_loop_grid:
  "s \<le> 81 \<Longrightarrow> length grid = 81 \<Longrightarrow>
   (case parse_loop rs i grid s d of (g', s', d') \<Rightarrow>
      length g' = 81 \<and> s' = min 81 (s + length (filter meaningful rs)) \<and>
      take s' g' = take s grid @ map cell_of (take (81 - s) (filter meaningful rs)))"
proof (induction rs arbitrary: i grid s d)
  case Nil
  then show ?case by simp
next
  case (Cons r rs)
  show ?case
  proof (cases "s = 81")
    case True
    then show ?thesis using Cons.prems parse_loop_full [of "r # rs" i grid d] by (simp add: N_def)
  next
    case False
    with Cons.prems have lt: "s < 81" by simp
    show ?thesis
    proof (cases "meaningful r")
      case True
      have tk: "take (s + 1) (grid[s := cell_of r]) = take s grid @ [cell_of r]"
        using lt Cons.prems(2) by (simp add: take_Suc_conv_app_nth)
      have m: "81 - s = Suc (81 - (s + 1))" using lt by simp
      obtain g' s' d' where p: "parse_loop rs (i + 1) (grid[s := cell_of r]) (s + 1) i = (g', s', d')"
        by (cases "parse_loop rs (i + 1) (grid[s := cell_of r]) (s + 1) i") auto
      from Cons.IH [of "s + 1" "grid[s := cell_of r]" "i + 1" i] p lt Cons.prems(2)
      have ih: "length g' = 81" "s' = min 81 (s + 1 + length (filter meaningful rs))"
        "take s' g' = take (s + 1) (grid[s := cell_of r]) @ map cell_of (take (81 - (s + 1)) (filter meaningful rs))"
        by auto
      have "parse_loop (r # rs) i grid s d = (g', s', d')"
        using p True lt by (simp add: parse_loop_Cons)
      then show ?thesis using ih True tk by (simp add: m)
    next
      case False
      obtain g' s' d' where p: "parse_loop rs (i + 1) grid s i = (g', s', d')"
        by (cases "parse_loop rs (i + 1) grid s i") auto
      from Cons.IH [of s grid "i + 1" i] p lt Cons.prems(2)
      have ih: "length g' = 81" "s' = min 81 (s + length (filter meaningful rs))"
        "take s' g' = take s grid @ map cell_of (take (81 - s) (filter meaningful rs))"
        by auto
      have "parse_loop (r # rs) i grid s d = (g', s', d')"
        using p False lt by (simp add: parse_loop_Cons)
      then show ?thesis using ih False by simp
    qed
  qed
qed


lemma digit_or_dot_meaningful: "digit_or_dot = meaningful"
  by (auto simp: digit_or_dot_def meaningful_def fun_eq_iff)

lemma contains_digit_or_dot_iff: "contains_digit_or_dot rs \<longleftrightarrow> filter meaningful rs \<noteq> []"
proof -
  have "contains_digit_or_dot rs \<longleftrightarrow> (\<exists>r\<in>set rs. digit_or_dot r)"
    by (simp add: contains_digit_or_dot_def digit_or_dot_def list_ex_iff)
  then show ?thesis by (simp add: digit_or_dot_meaningful filter_empty_conv)
qed

lemma later_meaningful:
  "k < length (filter P rs) \<Longrightarrow> \<exists>i<length rs. P (rs ! i) \<and> k \<le> length (filter P (take i rs))"
proof (induction rs rule: rev_induct)
  case Nil
  then show ?case by simp
next
  case (snoc x xs)
  show ?case
  proof (cases "k < length (filter P xs)")
    case True
    from snoc.IH [OF this] obtain i where "i < length xs" "P (xs ! i)" "k \<le> length (filter P (take i xs))"
      by auto
    then show ?thesis by (auto simp: nth_append intro!: exI [of _ i])
  next
    case False
    with snoc.prems have "P x" "k = length (filter P xs)" by (auto split: if_splits)
    then show ?thesis by (auto intro!: exI [of _ "length xs"])
  qed
qed

lemma later_meaningful_iff:
  "(\<exists>i<length rs. digit_or_dot (rs ! i) \<and> 81 \<le> length (filter meaningful (take i rs)))
     \<longleftrightarrow> 81 < length (filter meaningful rs)"
proof
  assume "\<exists>i<length rs. digit_or_dot (rs ! i) \<and> 81 \<le> length (filter meaningful (take i rs))"
  then obtain i where i: "i < length rs" "meaningful (rs ! i)" "81 \<le> length (filter meaningful (take i rs))"
    by (auto simp: digit_or_dot_meaningful)
  have "rs = take i rs @ rs ! i # drop (Suc i) rs" using i(1) by (rule id_take_nth_drop)
  then have "length (filter meaningful rs)
      = length (filter meaningful (take i rs)) + length (filter meaningful (rs ! i # drop (Suc i) rs))"
    by (metis filter_append length_append)
  with i show "81 < length (filter meaningful rs)" by simp
next
  assume "81 < length (filter meaningful rs)"
  from later_meaningful [OF this] show
    "\<exists>i<length rs. digit_or_dot (rs ! i) \<and> 81 \<le> length (filter meaningful (take i rs))"
    by (simp add: digit_or_dot_meaningful)
qed

lemma parseGrid_count:
  "parseGrid rs =
     (if length (filter meaningful rs) < 81
      then Ret (Inl (TooFewDigits (length (filter meaningful rs))))
      else if 81 < length (filter meaningful rs) then Ret (Inl TooManyDigits)
      else Ret (Inr (map cell_of (filter meaningful rs))))"
proof (cases "length (filter meaningful rs) < 81")
  case True
  from parse_loop_count [of 0 rs 0 "replicate 81 0" 0] True
  show ?thesis by (auto simp: parseGrid_def N_def split: prod.splits)
next
  case False
  then have ge: "81 \<le> 0 + length (filter meaningful rs)" by simp
  obtain g' s' d' where p: "parse_loop rs 0 (replicate 81 0) 0 0 = (g', s', d')"
    by (cases "parse_loop rs 0 (replicate 81 0) 0 0") auto
  from parse_loop_stop [OF _ ge, of 0 "replicate 81 0" 0] p
  have st: "s' = 81" "d' < length rs"
    "length (filter meaningful (drop (d' + 1) rs)) = length (filter meaningful rs) - 81"
    by auto
  from parse_loop_grid [of 0 "replicate 81 0" rs 0 0] p st(1)
  have gr: "length g' = 81" "take 81 g' = map cell_of (take 81 (filter meaningful rs))"
    by auto
  have cd: "contains_digit_or_dot (drop (d' + 1) rs) \<longleftrightarrow> 81 < length (filter meaningful rs)"
    using st(3) by (simp add: contains_digit_or_dot_iff flip: length_greater_0_conv)
  show ?thesis
    using False p st(1,2) gr cd by (auto simp: parseGrid_def N_def)
qed

text \<open>
  Claim C4. \<open>parseGrid\<close> fails with a format error exactly when the line has fewer than 81
  meaningful characters, or when a digit or a dot occurs after the 81st meaningful
  character; otherwise it succeeds with the grid of the meaningful characters, whatever
  the other characters are.
\<close>

theorem parseGrid_format_error:
  "parseGrid rs =
     (if length (filter meaningful rs) < 81
      then Ret (Inl (TooFewDigits (length (filter meaningful rs))))
      else if (\<exists>i<length rs. digit_or_dot (rs ! i) \<and> 81 \<le> length (filter meaningful (take i rs)))
      then Ret (Inl TooManyDigits)
      else Ret (Inr (map cell_of (filter meaningful rs))))"
  unfolding later_meaningful_iff by (rule parseGrid_count)

lemma cell_of_cases: "cell_of r \<in> {1, 2, 4, 8, 16, 32, 64, 128, 256, 511}"
proof (cases "49 \<le> r \<and> r \<le> 57")
  case True
  then have "r \<in> {49, 50, 51, 52, 53, 54, 55, 56, 57}" by auto
  then show ?thesis by (auto simp: cell_of_def)
next
  case False
  then show ?thesis by (auto simp: cell_of_def ALL_DIGITS_def)
qed

text \<open>
  Claim C10. A grid returned by \<open>parseGrid\<close> has 81 entries, each one of the nine
  single-bit values or the universal bitset 511; none is zero or anything else.
\<close>

theorem parseGrid_cells:
  "parseGrid rs = Ret (Inr grid) \<Longrightarrow>
   length grid = 81 \<and> (\<forall>v\<in>set grid. v \<in> {1, 2, 4, 8, 16, 32, 64, 128, 256, 511})"
proof -
  assume "parseGrid rs = Ret (Inr grid)"
  then have g: "length (filter meaningful rs) = 81" "grid = map cell_of (filter meaningful rs)"
    by (auto simp: parseGrid_count split: if_splits)
  have "v \<in> {1, 2, 4, 8, 16, 32, 64, 128, 256, 511}" if "v \<in> set grid" for v
  proof -
    from that g(2) obtain r where "v = cell_of r" by auto
    then show ?thesis using cell_of_cases [of r] by simp
  qed
  with g show ?thesis by simp
qed

lemma parse_norvig_line: "parseGrid (runes norvig_line) = Ret (Inr norvig_puzzle)"
  by code_simp

theorem parseGrid_cells_witness:
  "parseGrid (runes norvig_line) = Ret (Inr norvig_puzzle) \<and>
   length norvig_puzzle = 81 \<and>
   set norvig_puzzle \<subseteq> {1, 2, 4, 8, 16, 32, 64, 128, 256, 511}"
  using parseGrid_cells [OF parse_norvig_line] parse_norvig_line by blast

section \<open>Selecting a square\<close>

lemma OnesCount_nonneg: "0 \<le> OnesCount v"
proof (induction v rule: OnesCount.induct)
  case (1 v)
  show ?case
  proof (cases "v \<le> 0")
    case True
    then show ?thesis by (simp add: OnesCount.simps)
  next
    case False
    with 1 have "0 \<le> OnesCount (v div 2)" by simp
    moreover have "0 \<le> v mod 2" by simp
    ultimately show ?thesis using False by (subst OnesCount.simps) simp
  qed
qed

lemma OnesCount_le: "v < 2 ^ n \<Longrightarrow> OnesCount v \<le> int n"
proof (induction n arbitrary: v)
  case 0
  then show ?case by (simp add: OnesCount.simps)
next
  case (Suc n)
  show ?case
  proof (cases "v \<le> 0")
    case True
    then show ?thesis by (simp add: OnesCount.simps)
  next
    case False
    from Suc.prems have "v div 2 < 2 ^ n" by simp
    from Suc.IH [OF this] have "OnesCount (v div 2) \<le> int n" .
    moreover have "v mod 2 \<le> 1" by simp
    ultimately show ?thesis using False by (subst OnesCount.simps) simp
  qed
qed

lemma candidates_range:
  "0 \<le> v \<Longrightarrow> v \<le> 511 \<Longrightarrow> 0 \<le> OnesCount v \<and> OnesCount v \<le> 9"
  using OnesCount_nonneg [of v] OnesCount_le [of v 9] by simp

lemma rd_nth: "rd xs i = (if i < length xs then Ret (xs ! i) else Panic)"
  by (induction xs arbitrary: i) (auto split: nat.splits)

lemma select_inv_done: "select_inv grid 81 sq m \<Longrightarrow> fewest_first grid sq"
  unfolding select_inv_def fewest_first_def
  by (auto simp: not_le)

lemma select_loop_step:
  assumes "length grid = 81" "k < 81" "0 \<le> grid ! k" "grid ! k \<le> 511"
  shows "select_loop grid (k # ss) sq m =
     (if candidates grid k = 2 then Ret (int k)
      else if 1 < candidates grid k \<and> candidates grid k < m
      then select_loop grid ss (int k) (candidates grid k)
      else select_loop grid ss sq m)"
  using assms by (simp add: rd_nth NUM_DIGITS_def ALL_DIGITS_def candidates_def)

lemma select_inv_two:
  assumes "select_inv grid k sq m" "candidates grid k = 2" "k < 81"
  shows "fewest_first grid (int k)"
proof -
  have a: "\<not> (\<forall>s<81. candidates grid s \<le> 1)" using assms(2,3) by force
  have b: "\<forall>t<k. 1 < candidates grid t \<longrightarrow> 2 < candidates grid t"
    using assms(1) unfolding select_inv_def by force
  have c: "\<forall>t<81. 1 < candidates grid t \<longrightarrow> 2 \<le> candidates grid t" by auto
  show ?thesis unfolding fewest_first_def using a b c assms(2,3) by simp
qed

lemma select_inv_better:
  assumes "select_inv grid k sq m" "1 < candidates grid k" "candidates grid k < m"
    "candidates grid k \<noteq> 2"
  shows "select_inv grid (Suc k) (int k) (candidates grid k)"
proof -
  have "\<forall>t<k. 1 < candidates grid t \<longrightarrow> candidates grid k < candidates grid t"
    using assms(1,3) unfolding select_inv_def by force
  then have "\<forall>t<Suc k. 1 < candidates grid t \<longrightarrow> candidates grid k \<le> candidates grid t"
    by (auto simp: less_Suc_eq)
  with \<open>\<forall>t<k. 1 < candidates grid t \<longrightarrow> candidates grid k < candidates grid t\<close> assms(2,4)
  show ?thesis unfolding select_inv_def by simp
qed

lemma select_inv_skip:
  assumes "select_inv grid k sq m" "\<not> (1 < candidates grid k \<and> candidates grid k < m)"
    "candidates grid k \<le> 9"
  shows "select_inv grid (Suc k) sq m"
  using assms unfolding select_inv_def by (auto simp: less_Suc_eq)

lemma select_loop_fewest:
  assumes len: "length grid = 81" and valid: "\<forall>v\<in>set grid. 0 \<le> v \<and> v \<le> ALL_DIGITS"
  shows "k \<le> 81 \<Longrightarrow> select_inv grid k sq m \<Longrightarrow>
         \<exists>r. select_loop grid [k ..< 81] sq m = Ret r \<and> fewest_first grid r"
proof (induction "81 - k" arbitrary: k sq m)
  case 0
  then have "k = 81" by simp
  with 0 show ?case by (simp add: select_inv_done)
next
  case (Suc n)
  then have k: "k < 81" by simp
  then have v: "0 \<le> grid ! k" "grid ! k \<le> 511"
    using valid len by (auto simp: ALL_DIGITS_def)
  have c9: "candidates grid k \<le> 9"
    using candidates_range [OF v] by (simp add: candidates_def)
  have up: "[k ..< 81] = k # [Suc k ..< 81]" using k by (simp add: upt_conv_Cons)
  have n: "n = 81 - Suc k" using Suc.hyps(2) by simp
  show ?case
  proof (cases "candidates grid k = 2")
    case True
    have "select_loop grid [k ..< 81] sq m = Ret (int k)"
      unfolding up select_loop_step [OF len k v] using True by simp
    then show ?thesis
      using select_inv_two [OF Suc.prems(2) True k] by simp
  next
    case False
    show ?thesis
    proof (cases "1 < candidates grid k \<and> candidates grid k < m")
      case True
      from select_inv_better [OF Suc.prems(2) _ _ False] True
      have "select_inv grid (Suc k) (int k) (candidates grid k)" by simp
      from Suc.hyps(1) [OF n _ this] k
      have "\<exists>r. select_loop grid [Suc k ..< 81] (int k) (candidates grid k) = Ret r
            \<and> fewest_first grid r" by simp
      moreover have "select_loop grid [k ..< 81] sq m
          = select_loop grid [Suc k ..< 81] (int k) (candidates grid k)"
        unfolding up select_loop_step [OF len k v] using True False by simp
      ultimately show ?thesis by simp
    next
      case nb: False
      from select_inv_skip [OF Suc.prems(2) nb c9]
      have "select_inv grid (Suc k) sq m" .
      from Suc.hyps(1) [OF n _ this] k
      have "\<exists>r. select_loop grid [Suc k ..< 81] sq m = Ret r \<and> fewest_first grid r" by simp
      moreover have "select_loop grid [k ..< 81] sq m = select_loop grid [Suc k ..< 81] sq m"
        unfolding up select_loop_step [OF len k v] using nb False by auto
      ultimately show ?thesis by simp
    qed
  qed
qed

lemma selectSquare_fewest_first:
  assumes "length grid = 81" "\<forall>v\<in>set grid. 0 \<le> v \<and> v \<le> ALL_DIGITS"
  shows "\<exists>r. selectSquare grid = Ret r \<and> fewest_first grid r"
proof -
  have "select_inv grid 0 (- 1) 10" by (simp add: select_inv_def)
  from select_loop_fewest [OF assms _ this, of] show ?thesis
    by (simp add: selectSquare_def SQUARES_def N_def)
qed

lemma select_loop_two:
  assumes len: "length grid = 81" and k: "k < 81"
    and valid: "\<forall>t\<le>k. 0 \<le> grid ! t \<and> grid ! t \<le> ALL_DIGITS"
    and two: "candidates grid k = 2" and first: "\<forall>t<k. candidates grid t \<noteq> 2"
  shows "j \<le> k \<Longrightarrow> select_loop grid [j ..< 81] sq m = Ret (int k)"
proof (induction "k - j" arbitrary: j sq m)
  case 0
  then have j: "j = k" by simp
  have up: "[k ..< 81] = k # [Suc k ..< 81]" using k by (simp add: upt_conv_Cons)
  have v: "0 \<le> grid ! k" "grid ! k \<le> 511" using valid by (auto simp: ALL_DIGITS_def)
  show ?case unfolding j up select_loop_step [OF len k v] using two by simp
next
  case (Suc n)
  then have jk: "j < k" by simp
  then have j81: "j < 81" using k by simp
  have up: "[j ..< 81] = j # [Suc j ..< 81]" using j81 by (simp add: upt_conv_Cons)
  have v: "0 \<le> grid ! j" "grid ! j \<le> 511" using valid jk by (auto simp: ALL_DIGITS_def)
  have n: "n = k - Suc j" using Suc.hyps(2) by simp
  have sj: "Suc j \<le> k" using jk by simp
  have "candidates grid j \<noteq> 2" using first jk by simp
  then show ?case
    unfolding up select_loop_step [OF len j81 v] using Suc.hyps(1) [OF n sj] by simp
qed

lemma search_done:
  "r \<noteq> NilGrid \<Longrightarrow> selectSquare (contents st r) = Ret (- 1) \<Longrightarrow>
   search (Suc n) st r level = Ret (r, st)"
  by (cases r) simp_all

text \<open>
  Claim C6. On a grid of 81 bitsets \<open>selectSquare\<close> returns the square of lowest index
  among the squares with more than one candidate that have the fewest candidates, and
  \<open>- 1\<close> when there is none. A first square with exactly 2 candidates is returned at once:
  the squares after it are not looked at, whatever they hold. When the answer is \<open>- 1\<close>,
  \<open>search\<close> returns the grid it was given, unchanged.
\<close>

theorem selectSquare_spec:
  "(length grid = 81 \<and> (\<forall>v\<in>set grid. 0 \<le> v \<and> v \<le> ALL_DIGITS) \<longrightarrow>
      (\<exists>r. selectSquare grid = Ret r \<and> fewest_first grid r)) \<and>
   (length grid = 81 \<and> k < 81 \<and> (\<forall>t\<le>k. 0 \<le> grid ! t \<and> grid ! t \<le> ALL_DIGITS) \<and>
      candidates grid k = 2 \<and> (\<forall>t<k. candidates grid t \<noteq> 2) \<longrightarrow>
      selectSquare grid = Ret (int k)) \<and>
   (r \<noteq> NilGrid \<and> selectSquare (contents st r) = Ret (- 1) \<longrightarrow>
      search (Suc n) st r level = Ret (r, st))"
proof (intro conjI impI)
  assume "length grid = 81 \<and> (\<forall>v\<in>set grid. 0 \<le> v \<and> v \<le> ALL_DIGITS)"
  then show "\<exists>r. selectSquare grid = Ret r \<and> fewest_first grid r"
    using selectSquare_fewest_first by blast
next
  assume a: "length grid = 81 \<and> k < 81 \<and> (\<forall>t\<le>k. 0 \<le> grid ! t \<and> grid ! t \<le> ALL_DIGITS) \<and>
      candidates grid k = 2 \<and> (\<forall>t<k. candidates grid t \<noteq> 2)"
  then have "select_loop grid [0 ..< 81] (- 1) 10 = Ret (int k)"
    using select_loop_two [of grid k 0 "- 1" 10] by blast
  then show "selectSquare grid = Ret (int k)"
    by (simp add: selectSquare_def SQUARES_def N_def)
next
  assume "r \<noteq> NilGrid \<and> selectSquare (contents st r) = Ret (- 1)"
  then show "search (Suc n) st r level = Ret (r, st)"
    using search_done by blast
qed

lemma select_norvig_solution: "selectSquare norvig_solution = Ret (- 1)"
  by code_simp

lemma select_two_first: "selectSquare (1 # 3 # replicate 79 1000) = Ret 1"
  by code_simp

theorem selectSquare_spec_witness:
  "selectSquare norvig_solution = Ret (- 1) \<and> fewest_first norvig_solution (- 1) \<and>
   selectSquare (1 # 3 # replicate 79 1000) = Ret (int 1) \<and>
   search (Suc 0) solved_store Made 0 = Ret (Made, solved_store)"
proof -
  have len: "length norvig_solution = 81" by (simp add: norvig_solution_def)
  have rng: "\<forall>v\<in>set norvig_solution. 0 \<le> v \<and> v \<le> ALL_DIGITS"
    by (simp add: norvig_solution_def ALL_DIGITS_def)
  have c: "contents solved_store Made = norvig_solution"
    by (simp add: contents_def solved_store_def)
  have two: "candidates (1 # 3 # replicate 79 1000) 1 = 2"
    by (simp add: candidates_def OnesCount.simps)
  have one: "candidates (1 # 3 # replicate 79 1000) 0 \<noteq> 2"
    by (simp add: candidates_def OnesCount.simps)
  have v: "\<forall>t\<le>1. 0 \<le> (1 # 3 # replicate 79 (1000::int)) ! t \<and>
      (1 # 3 # replicate 79 (1000::int)) ! t \<le> ALL_DIGITS"
    by (simp add: ALL_DIGITS_def le_Suc_eq)
  from selectSquare_spec [of norvig_solution 1 Made solved_store 0 0] len rng
    select_norvig_solution c
  have a: "fewest_first norvig_solution (- 1)"
    "search (Suc 0) solved_store Made 0 = Ret (Made, solved_store)" by auto
  from selectSquare_spec [of "1 # 3 # replicate 79 1000" 1 Made solved_store 0 0] two one v
  have b: "selectSquare (1 # 3 # replicate 79 1000) = Ret (int 1)" by simp
  from a b select_norvig_solution show ?thesis by simp
qed

section \<open>Verification\<close>

text \<open>
  Claim C1, at the failing input. The grid \<open>repeated_rows\<close> has a single digit in every
  square and the blank puzzle gives nothing, yet every column and every block of the grid
  repeats a digit; the claim wants \<open>verify\<close> to return false, and it returns true.
  The inner loop \<open>for s := range u\<close> runs over the indices 0 to 8 of the unit, not over
  its squares, so that the first row is checked 27 times.
\<close>

theorem verify_accepts_repeated_columns:
  "verify (Some repeated_rows) (replicate 81 ALL_DIGITS) = Ret True \<and>
   length repeated_rows = 81 \<and> set repeated_rows \<subseteq> set DIGITS \<and>
   repeated_rows ! 0 = repeated_rows ! 9"
  by code_simp

section \<open>The tables, computed\<close>

lemma UNITS_tab:
  "UNITS =
    [[[0, 1, 2, 3, 4, 5, 6, 7, 8], [0, 9, 18, 27, 36, 45, 54, 63, 72], [0, 1, 2, 9, 10, 11, 18, 19,
    20]], [[0, 1, 2, 3, 4, 5, 6, 7, 8], [1, 10, 19, 28, 37, 46, 55, 64, 73], [0, 1, 2, 9, 10, 11,
    18, 19, 20]], [[0, 1, 2, 3, 4, 5, 6, 7, 8], [2, 11, 20, 29, 38, 47, 56, 65, 74], [0, 1, 2, 9,
    10, 11, 18, 19, 20]], [[0, 1, 2, 3, 4, 5, 6, 7, 8], [3, 12, 21, 30, 39, 48, 57, 66, 75], [3, 4,
    5, 12, 13, 14, 21, 22, 23]], [[0, 1, 2, 3, 4, 5, 6, 7, 8], [4, 13, 22, 31, 40, 49, 58, 67, 76],
    [3, 4, 5, 12, 13, 14, 21, 22, 23]], [[0, 1, 2, 3, 4, 5, 6, 7, 8], [5, 14, 23, 32, 41, 50, 59,
    68, 77], [3, 4, 5, 12, 13, 14, 21, 22, 23]], [[0, 1, 2, 3, 4, 5, 6, 7, 8], [6, 15, 24, 33, 42,
    51, 60, 69, 78], [6, 7, 8, 15, 16, 17, 24, 25, 26]], [[0, 1, 2, 3, 4, 5, 6, 7, 8], [7, 16, 25,
    34, 43, 52, 61, 70, 79], [6, 7, 8, 15, 16, 17, 24, 25, 26]], [[0, 1, 2, 3, 4, 5, 6, 7, 8], [8,
    17, 26, 35, 44, 53, 62, 71, 80], [6, 7, 8, 15, 16, 17, 24, 25, 26]], [[9, 10, 11, 12, 13, 14,
    15, 16, 17], [0, 9, 18, 27, 36, 45, 54, 63, 72], [0, 1, 2, 9, 10, 11, 18, 19, 20]], [[9, 10, 11,
    12, 13, 14, 15, 16, 17], [1, 10, 19, 28, 37, 46, 55, 64, 73], [0, 1, 2, 9, 10, 11, 18, 19, 20]],
    [[9, 10, 11, 12, 13, 14, 15, 16, 17], [2, 11, 20, 29, 38, 47, 56, 65, 74], [0, 1, 2, 9, 10, 11,
    18, 19, 20]], [[9, 10, 11, 12, 13, 14, 15, 16, 17], [3, 12, 21, 30, 39, 48, 57, 66, 75], [3, 4,
    5, 12, 13, 14, 21, 22, 23]], [[9, 10, 11, 12, 13, 14, 15, 16, 17], [4, 13, 22, 31, 40, 49, 58,
    67, 76], [3, 4, 5, 12, 13, 14, 21, 22, 23]], [[9, 10, 11, 12, 13, 14, 15, 16, 17], [5, 14, 23,
    32, 41, 50, 59, 68, 77], [3, 4, 5, 12, 13, 14, 21, 22, 23]], [[9, 10, 11, 12, 13, 14, 15, 16,
    17], [6, 15, 24, 33, 42, 51, 60, 69, 78], [6, 7, 8, 15, 16, 17, 24, 25, 26]], [[9, 10, 11, 12,
    13, 14, 15, 16, 17], [7, 16, 25, 34, 43, 52, 61, 70, 79], [6, 7, 8, 15, 16, 17, 24, 25, 26]],
    [[9, 10, 11, 12, 13, 14, 15, 16, 17], [8, 17, 26, 35, 44, 53, 62, 71, 80], [6, 7, 8, 15, 16, 17,
    24, 25, 26]], [[18, 19, 20, 21, 22, 23, 24, 25, 26], [0, 9, 18, 27, 36, 45, 54, 63, 72], [0, 1,
    2, 9, 10, 11, 18, 19, 20]], [[18, 19, 20, 21, 22, 23, 24, 25, 26], [1, 10, 19, 28, 37, 46, 55,
    64, 73], [0, 1, 2, 9, 10, 11, 18, 19, 20]], [[18, 19, 20, 21, 22, 23, 24, 25, 26], [2, 11, 20,
    29, 38, 47, 56, 65, 74], [0, 1, 2, 9, 10, 11, 18, 19, 20]], [[18, 19, 20, 21, 22, 23, 24, 25,
    26], [3, 12, 21, 30, 39, 48, 57, 66, 75], [3, 4, 5, 12, 13, 14, 21, 22, 23]], [[18, 19, 20, 21,
    22, 23, 24, 25, 26], [4, 13, 22, 31, 40, 49, 58, 67, 76], [3, 4, 5, 12, 13, 14, 21, 22, 23]],
    [[18, 19, 20, 21, 22, 23, 24, 25, 26], [5, 14, 23, 32, 41, 50, 59, 68, 77], [3, 4, 5, 12, 13,
    14, 21, 22, 23]], [[18, 19, 20, 21, 22, 23, 24, 25, 26], [6, 15, 24, 33, 42, 51, 60, 69, 78],
    [6, 7, 8, 15, 16, 17, 24, 25, 26]], [[18, 19, 20, 21, 22, 23, 24, 25, 26], [7, 16, 25, 34, 43,
    52, 61, 70, 79], [6, 7, 8, 15, 16, 17, 24, 25, 26]], [[18, 19, 20, 21, 22, 23, 24, 25, 26], [8,
    17, 26, 35, 44, 53, 62, 71, 80], [6, 7, 8, 15, 16, 17, 24, 25, 26]], [[27, 28, 29, 30, 31, 32,
    33, 34, 35], [0, 9, 18, 27, 36, 45, 54, 63, 72], [27, 28, 29, 36, 37, 38, 45, 46, 47]], [[27,
    28, 29, 30, 31, 32, 33, 34, 35], [1, 10, 19, 28, 37, 46, 55, 64, 73], [27, 28, 29, 36, 37, 38,
    45, 46, 47]], [[27, 28, 29, 30, 31, 32, 33, 34, 35], [2, 11, 20, 29, 38, 47, 56, 65, 74], [27,
    28, 29, 36, 37, 38, 45, 46, 47]], [[27, 28, 29, 30, 31, 32, 33, 34, 35], [3, 12, 21, 30, 39, 48,
    57, 66, 75], [30, 31, 32, 39, 40, 41, 48, 49, 50]], [[27, 28, 29, 30, 31, 32, 33, 34, 35], [4,
    13, 22, 31, 40, 49, 58, 67, 76], [30, 31, 32, 39, 40, 41, 48, 49, 50]], [[27, 28, 29, 30, 31,
    32, 33, 34, 35], [5, 14, 23, 32, 41, 50, 59, 68, 77], [30, 31, 32, 39, 40, 41, 48, 49, 50]],
    [[27, 28, 29, 30, 31, 32, 33, 34, 35], [6, 15, 24, 33, 42, 51, 60, 69, 78], [33, 34, 35, 42, 43,
    44, 51, 52, 53]], [[27, 28, 29, 30, 31, 32, 33, 34, 35], [7, 16, 25, 34, 43, 52, 61, 70, 79],
    [33, 34, 35, 42, 43, 44, 51, 52, 53]], [[27, 28, 29, 30, 31, 32, 33, 34, 35], [8, 17, 26, 35,
    44, 53, 62, 71, 80], [33, 34, 35, 42, 43, 44, 51, 52, 53]], [[36, 37, 38, 39, 40, 41, 42, 43,
    44], [0, 9, 18, 27, 36, 45, 54, 63, 72], [27, 28, 29, 36, 37, 38, 45, 46, 47]], [[36, 37, 38,
    39, 40, 41, 42, 43, 44], [1, 10, 19, 28, 37, 46, 55, 64, 73], [27, 28, 29, 36, 37, 38, 45, 46,
    47]], [[36, 37, 38, 39, 40, 41, 42, 43, 44], [2, 11, 20, 29, 38, 47, 56, 65, 74], [27, 28, 29,
    36, 37, 38, 45, 46, 47]], [[36, 37, 38, 39, 40, 41, 42, 43, 44], [3, 12, 21, 30, 39, 48, 57, 66,
    75], [30, 31, 32, 39, 40, 41, 48, 49, 50]], [[36, 37, 38, 39, 40, 41, 42, 43, 44], [4, 13, 22,
    31, 40, 49, 58, 67, 76], [30, 31, 32, 39, 40, 41, 48, 49, 50]], [[36, 37, 38, 39, 40, 41, 42,
    43, 44], [5, 14, 23, 32, 41, 50, 59, 68, 77], [30, 31, 32, 39, 40, 41, 48, 49, 50]], [[36, 37,
    38, 39, 40, 41, 42, 43, 44], [6, 15, 24, 33, 42, 51, 60, 69, 78], [33, 34, 35, 42, 43, 44, 51,
    52, 53]], [[36, 37, 38, 39, 40, 41, 42, 43, 44], [7, 16, 25, 34, 43, 52, 61, 70, 79], [33, 34,
    35, 42, 43, 44, 51, 52, 53]], [[36, 37, 38, 39, 40, 41, 42, 43, 44], [8, 17, 26, 35, 44, 53, 62,
    71, 80], [33, 34, 35, 42, 43, 44, 51, 52, 53]], [[45, 46, 47, 48, 49, 50, 51, 52, 53], [0, 9,
    18, 27, 36, 45, 54, 63, 72], [27, 28, 29, 36, 37, 38, 45, 46, 47]], [[45, 46, 47, 48, 49, 50,
    51, 52, 53], [1, 10, 19, 28, 37, 46, 55, 64, 73], [27, 28, 29, 36, 37, 38, 45, 46, 47]], [[45,
    46, 47, 48, 49, 50, 51, 52, 53], [2, 11, 20, 29, 38, 47, 56, 65, 74], [27, 28, 29, 36, 37, 38,
    45, 46, 47]], [[45, 46, 47, 48, 49, 50, 51, 52, 53], [3, 12, 21, 30, 39, 48, 57, 66, 75], [30,
    31, 32, 39, 40, 41, 48, 49, 50]], [[45, 46, 47, 48, 49, 50, 51, 52, 53], [4, 13, 22, 31, 40, 49,
    58, 67, 76], [30, 31, 32, 39, 40, 41, 48, 49, 50]], [[45, 46, 47, 48, 49, 50, 51, 52, 53], [5,
    14, 23, 32, 41, 50, 59, 68, 77], [30, 31, 32, 39, 40, 41, 48, 49, 50]], [[45, 46, 47, 48, 49,
    50, 51, 52, 53], [6, 15, 24, 33, 42, 51, 60, 69, 78], [33, 34, 35, 42, 43, 44, 51, 52, 53]],
    [[45, 46, 47, 48, 49, 50, 51, 52, 53], [7, 16, 25, 34, 43, 52, 61, 70, 79], [33, 34, 35, 42, 43,
    44, 51, 52, 53]], [[45, 46, 47, 48, 49, 50, 51, 52, 53], [8, 17, 26, 35, 44, 53, 62, 71, 80],
    [33, 34, 35, 42, 43, 44, 51, 52, 53]], [[54, 55, 56, 57, 58, 59, 60, 61, 62], [0, 9, 18, 27, 36,
    45, 54, 63, 72], [54, 55, 56, 63, 64, 65, 72, 73, 74]], [[54, 55, 56, 57, 58, 59, 60, 61, 62],
    [1, 10, 19, 28, 37, 46, 55, 64, 73], [54, 55, 56, 63, 64, 65, 72, 73, 74]], [[54, 55, 56, 57,
    58, 59, 60, 61, 62], [2, 11, 20, 29, 38, 47, 56, 65, 74], [54, 55, 56, 63, 64, 65, 72, 73, 74]],
    [[54, 55, 56, 57, 58, 59, 60, 61, 62], [3, 12, 21, 30, 39, 48, 57, 66, 75], [57, 58, 59, 66, 67,
    68, 75, 76, 77]], [[54, 55, 56, 57, 58, 59, 60, 61, 62], [4, 13, 22, 31, 40, 49, 58, 67, 76],
    [57, 58, 59, 66, 67, 68, 75, 76, 77]], [[54, 55, 56, 57, 58, 59, 60, 61, 62], [5, 14, 23, 32,
    41, 50, 59, 68, 77], [57, 58, 59, 66, 67, 68, 75, 76, 77]], [[54, 55, 56, 57, 58, 59, 60, 61,
    62], [6, 15, 24, 33, 42, 51, 60, 69, 78], [60, 61, 62, 69, 70, 71, 78, 79, 80]], [[54, 55, 56,
    57, 58, 59, 60, 61, 62], [7, 16, 25, 34, 43, 52, 61, 70, 79], [60, 61, 62, 69, 70, 71, 78, 79,
    80]], [[54, 55, 56, 57, 58, 59, 60, 61, 62], [8, 17, 26, 35, 44, 53, 62, 71, 80], [60, 61, 62,
    69, 70, 71, 78, 79, 80]], [[63, 64, 65, 66, 67, 68, 69, 70, 71], [0, 9, 18, 27, 36, 45, 54, 63,
    72], [54, 55, 56, 63, 64, 65, 72, 73, 74]], [[63, 64, 65, 66, 67, 68, 69, 70, 71], [1, 10, 19,
    28, 37, 46, 55, 64, 73], [54, 55, 56, 63, 64, 65, 72, 73, 74]], [[63, 64, 65, 66, 67, 68, 69,
    70, 71], [2, 11, 20, 29, 38, 47, 56, 65, 74], [54, 55, 56, 63, 64, 65, 72, 73, 74]], [[63, 64,
    65, 66, 67, 68, 69, 70, 71], [3, 12, 21, 30, 39, 48, 57, 66, 75], [57, 58, 59, 66, 67, 68, 75,
    76, 77]], [[63, 64, 65, 66, 67, 68, 69, 70, 71], [4, 13, 22, 31, 40, 49, 58, 67, 76], [57, 58,
    59, 66, 67, 68, 75, 76, 77]], [[63, 64, 65, 66, 67, 68, 69, 70, 71], [5, 14, 23, 32, 41, 50, 59,
    68, 77], [57, 58, 59, 66, 67, 68, 75, 76, 77]], [[63, 64, 65, 66, 67, 68, 69, 70, 71], [6, 15,
    24, 33, 42, 51, 60, 69, 78], [60, 61, 62, 69, 70, 71, 78, 79, 80]], [[63, 64, 65, 66, 67, 68,
    69, 70, 71], [7, 16, 25, 34, 43, 52, 61, 70, 79], [60, 61, 62, 69, 70, 71, 78, 79, 80]], [[63,
    64, 65, 66, 67, 68, 69, 70, 71], [8, 17, 26, 35, 44, 53, 62, 71, 80], [60, 61, 62, 69, 70, 71,
    78, 79, 80]], [[72, 73, 74, 75, 76, 77, 78, 79, 80], [0, 9, 18, 27, 36, 45, 54, 63, 72], [54,
    55, 56, 63, 64, 65, 72, 73, 74]], [[72, 73, 74, 75, 76, 77, 78, 79, 80], [1, 10, 19, 28, 37, 46,
    55, 64, 73], [54, 55, 56, 63, 64, 65, 72, 73, 74]], [[72, 73, 74, 75, 76, 77, 78, 79, 80], [2,
    11, 20, 29, 38, 47, 56, 65, 74], [54, 55, 56, 63, 64, 65, 72, 73, 74]], [[72, 73, 74, 75, 76,
    77, 78, 79, 80], [3, 12, 21, 30, 39, 48, 57, 66, 75], [57, 58, 59, 66, 67, 68, 75, 76, 77]],
    [[72, 73, 74, 75, 76, 77, 78, 79, 80], [4, 13, 22, 31, 40, 49, 58, 67, 76], [57, 58, 59, 66, 67,
    68, 75, 76, 77]], [[72, 73, 74, 75, 76, 77, 78, 79, 80], [5, 14, 23, 32, 41, 50, 59, 68, 77],
    [57, 58, 59, 66, 67, 68, 75, 76, 77]], [[72, 73, 74, 75, 76, 77, 78, 79, 80], [6, 15, 24, 33,
    42, 51, 60, 69, 78], [60, 61, 62, 69, 70, 71, 78, 79, 80]], [[72, 73, 74, 75, 76, 77, 78, 79,
    80], [7, 16, 25, 34, 43, 52, 61, 70, 79], [60, 61, 62, 69, 70, 71, 78, 79, 80]], [[72, 73, 74,
    75, 76, 77, 78, 79, 80], [8, 17, 26, 35, 44, 53, 62, 71, 80], [60, 61, 62, 69, 70, 71, 78, 79,
    80]]]"
  by code_simp

declare UNITS_tab [code]

lemma PEERS_tab:
  "PEERS =
    [[1, 2, 3, 4, 5, 6, 7, 8, 9, 18, 27, 36, 45, 54, 63, 72, 10, 11, 19, 20], [0, 2, 3, 4, 5, 6, 7,
    8, 10, 19, 28, 37, 46, 55, 64, 73, 9, 11, 18, 20], [0, 1, 3, 4, 5, 6, 7, 8, 11, 20, 29, 38, 47,
    56, 65, 74, 9, 10, 18, 19], [0, 1, 2, 4, 5, 6, 7, 8, 12, 21, 30, 39, 48, 57, 66, 75, 13, 14, 22,
    23], [0, 1, 2, 3, 5, 6, 7, 8, 13, 22, 31, 40, 49, 58, 67, 76, 12, 14, 21, 23], [0, 1, 2, 3, 4,
    6, 7, 8, 14, 23, 32, 41, 50, 59, 68, 77, 12, 13, 21, 22], [0, 1, 2, 3, 4, 5, 7, 8, 15, 24, 33,
    42, 51, 60, 69, 78, 16, 17, 25, 26], [0, 1, 2, 3, 4, 5, 6, 8, 16, 25, 34, 43, 52, 61, 70, 79,
    15, 17, 24, 26], [0, 1, 2, 3, 4, 5, 6, 7, 17, 26, 35, 44, 53, 62, 71, 80, 15, 16, 24, 25], [10,
    11, 12, 13, 14, 15, 16, 17, 0, 18, 27, 36, 45, 54, 63, 72, 1, 2, 19, 20], [9, 11, 12, 13, 14,
    15, 16, 17, 1, 19, 28, 37, 46, 55, 64, 73, 0, 2, 18, 20], [9, 10, 12, 13, 14, 15, 16, 17, 2, 20,
    29, 38, 47, 56, 65, 74, 0, 1, 18, 19], [9, 10, 11, 13, 14, 15, 16, 17, 3, 21, 30, 39, 48, 57,
    66, 75, 4, 5, 22, 23], [9, 10, 11, 12, 14, 15, 16, 17, 4, 22, 31, 40, 49, 58, 67, 76, 3, 5, 21,
    23], [9, 10, 11, 12, 13, 15, 16, 17, 5, 23, 32, 41, 50, 59, 68, 77, 3, 4, 21, 22], [9, 10, 11,
    12, 13, 14, 16, 17, 6, 24, 33, 42, 51, 60, 69, 78, 7, 8, 25, 26], [9, 10, 11, 12, 13, 14, 15,
    17, 7, 25, 34, 43, 52, 61, 70, 79, 6, 8, 24, 26], [9, 10, 11, 12, 13, 14, 15, 16, 8, 26, 35, 44,
    53, 62, 71, 80, 6, 7, 24, 25], [19, 20, 21, 22, 23, 24, 25, 26, 0, 9, 27, 36, 45, 54, 63, 72, 1,
    2, 10, 11], [18, 20, 21, 22, 23, 24, 25, 26, 1, 10, 28, 37, 46, 55, 64, 73, 0, 2, 9, 11], [18,
    19, 21, 22, 23, 24, 25, 26, 2, 11, 29, 38, 47, 56, 65, 74, 0, 1, 9, 10], [18, 19, 20, 22, 23,
    24, 25, 26, 3, 12, 30, 39, 48, 57, 66, 75, 4, 5, 13, 14], [18, 19, 20, 21, 23, 24, 25, 26, 4,
    13, 31, 40, 49, 58, 67, 76, 3, 5, 12, 14], [18, 19, 20, 21, 22, 24, 25, 26, 5, 14, 32, 41, 50,
    59, 68, 77, 3, 4, 12, 13], [18, 19, 20, 21, 22, 23, 25, 26, 6, 15, 33, 42, 51, 60, 69, 78, 7, 8,
    16, 17], [18, 19, 20, 21, 22, 23, 24, 26, 7, 16, 34, 43, 52, 61, 70, 79, 6, 8, 15, 17], [18, 19,
    20, 21, 22, 23, 24, 25, 8, 17, 35, 44, 53, 62, 71, 80, 6, 7, 15, 16], [28, 29, 30, 31, 32, 33,
    34, 35, 0, 9, 18, 36, 45, 54, 63, 72, 37, 38, 46, 47], [27, 29, 30, 31, 32, 33, 34, 35, 1, 10,
    19, 37, 46, 55, 64, 73, 36, 38, 45, 47], [27, 28, 30, 31, 32, 33, 34, 35, 2, 11, 20, 38, 47, 56,
    65, 74, 36, 37, 45, 46], [27, 28, 29, 31, 32, 33, 34, 35, 3, 12, 21, 39, 48, 57, 66, 75, 40, 41,
    49, 50], [27, 28, 29, 30, 32, 33, 34, 35, 4, 13, 22, 40, 49, 58, 67, 76, 39, 41, 48, 50], [27,
    28, 29, 30, 31, 33, 34, 35, 5, 14, 23, 41, 50, 59, 68, 77, 39, 40, 48, 49], [27, 28, 29, 30, 31,
    32, 34, 35, 6, 15, 24, 42, 51, 60, 69, 78, 43, 44, 52, 53], [27, 28, 29, 30, 31, 32, 33, 35, 7,
    16, 25, 43, 52, 61, 70, 79, 42, 44, 51, 53], [27, 28, 29, 30, 31, 32, 33, 34, 8, 17, 26, 44, 53,
    62, 71, 80, 42, 43, 51, 52], [37, 38, 39, 40, 41, 42, 43, 44, 0, 9, 18, 27, 45, 54, 63, 72, 28,
    29, 46, 47], [36, 38, 39, 40, 41, 42, 43, 44, 1, 10, 19, 28, 46, 55, 64, 73, 27, 29, 45, 47],
    [36, 37, 39, 40, 41, 42, 43, 44, 2, 11, 20, 29, 47, 56, 65, 74, 27, 28, 45, 46], [36, 37, 38,
    40, 41, 42, 43, 44, 3, 12, 21, 30, 48, 57, 66, 75, 31, 32, 49, 50], [36, 37, 38, 39, 41, 42, 43,
    44, 4, 13, 22, 31, 49, 58, 67, 76, 30, 32, 48, 50], [36, 37, 38, 39, 40, 42, 43, 44, 5, 14, 23,
    32, 50, 59, 68, 77, 30, 31, 48, 49], [36, 37, 38, 39, 40, 41, 43, 44, 6, 15, 24, 33, 51, 60, 69,
    78, 34, 35, 52, 53], [36, 37, 38, 39, 40, 41, 42, 44, 7, 16, 25, 34, 52, 61, 70, 79, 33, 35, 51,
    53], [36, 37, 38, 39, 40, 41, 42, 43, 8, 17, 26, 35, 53, 62, 71, 80, 33, 34, 51, 52], [46, 47,
    48, 49, 50, 51, 52, 53, 0, 9, 18, 27, 36, 54, 63, 72, 28, 29, 37, 38], [45, 47, 48, 49, 50, 51,
    52, 53, 1, 10, 19, 28, 37, 55, 64, 73, 27, 29, 36, 38], [45, 46, 48, 49, 50, 51, 52, 53, 2, 11,
    20, 29, 38, 56, 65, 74, 27, 28, 36, 37], [45, 46, 47, 49, 50, 51, 52, 53, 3, 12, 21, 30, 39, 57,
    66, 75, 31, 32, 40, 41], [45, 46, 47, 48, 50, 51, 52, 53, 4, 13, 22, 31, 40, 58, 67, 76, 30, 32,
    39, 41], [45, 46, 47, 48, 49, 51, 52, 53, 5, 14, 23, 32, 41, 59, 68, 77, 30, 31, 39, 40], [45,
    46, 47, 48, 49, 50, 52, 53, 6, 15, 24, 33, 42, 60, 69, 78, 34, 35, 43, 44], [45, 46, 47, 48, 49,
    50, 51, 53, 7, 16, 25, 34, 43, 61, 70, 79, 33, 35, 42, 44], [45, 46, 47, 48, 49, 50, 51, 52, 8,
    17, 26, 35, 44, 62, 71, 80, 33, 34, 42, 43], [55, 56, 57, 58, 59, 60, 61, 62, 0, 9, 18, 27, 36,
    45, 63, 72, 64, 65, 73, 74], [54, 56, 57, 58, 59, 60, 61, 62, 1, 10, 19, 28, 37, 46, 64, 73, 63,
    65, 72, 74], [54, 55, 57, 58, 59, 60, 61, 62, 2, 11, 20, 29, 38, 47, 65, 74, 63, 64, 72, 73],
    [54, 55, 56, 58, 59, 60, 61, 62, 3, 12, 21, 30, 39, 48, 66, 75, 67, 68, 76, 77], [54, 55, 56,
    57, 59, 60, 61, 62, 4, 13, 22, 31, 40, 49, 67, 76, 66, 68, 75, 77], [54, 55, 56, 57, 58, 60, 61,
    62, 5, 14, 23, 32, 41, 50, 68, 77, 66, 67, 75, 76], [54, 55, 56, 57, 58, 59, 61, 62, 6, 15, 24,
    33, 42, 51, 69, 78, 70, 71, 79, 80], [54, 55, 56, 57, 58, 59, 60, 62, 7, 16, 25, 34, 43, 52, 70,
    79, 69, 71, 78, 80], [54, 55, 56, 57, 58, 59, 60, 61, 8, 17, 26, 35, 44, 53, 71, 80, 69, 70, 78,
    79], [64, 65, 66, 67, 68, 69, 70, 71, 0, 9, 18, 27, 36, 45, 54, 72, 55, 56, 73, 74], [63, 65,
    66, 67, 68, 69, 70, 71, 1, 10, 19, 28, 37, 46, 55, 73, 54, 56, 72, 74], [63, 64, 66, 67, 68, 69,
    70, 71, 2, 11, 20, 29, 38, 47, 56, 74, 54, 55, 72, 73], [63, 64, 65, 67, 68, 69, 70, 71, 3, 12,
    21, 30, 39, 48, 57, 75, 58, 59, 76, 77], [63, 64, 65, 66, 68, 69, 70, 71, 4, 13, 22, 31, 40, 49,
    58, 76, 57, 59, 75, 77], [63, 64, 65, 66, 67, 69, 70, 71, 5, 14, 23, 32, 41, 50, 59, 77, 57, 58,
    75, 76], [63, 64, 65, 66, 67, 68, 70, 71, 6, 15, 24, 33, 42, 51, 60, 78, 61, 62, 79, 80], [63,
    64, 65, 66, 67, 68, 69, 71, 7, 16, 25, 34, 43, 52, 61, 79, 60, 62, 78, 80], [63, 64, 65, 66, 67,
    68, 69, 70, 8, 17, 26, 35, 44, 53, 62, 80, 60, 61, 78, 79], [73, 74, 75, 76, 77, 78, 79, 80, 0,
    9, 18, 27, 36, 45, 54, 63, 55, 56, 64, 65], [72, 74, 75, 76, 77, 78, 79, 80, 1, 10, 19, 28, 37,
    46, 55, 64, 54, 56, 63, 65], [72, 73, 75, 76, 77, 78, 79, 80, 2, 11, 20, 29, 38, 47, 56, 65, 54,
    55, 63, 64], [72, 73, 74, 76, 77, 78, 79, 80, 3, 12, 21, 30, 39, 48, 57, 66, 58, 59, 67, 68],
    [72, 73, 74, 75, 77, 78, 79, 80, 4, 13, 22, 31, 40, 49, 58, 67, 57, 59, 66, 68], [72, 73, 74,
    75, 76, 78, 79, 80, 5, 14, 23, 32, 41, 50, 59, 68, 57, 58, 66, 67], [72, 73, 74, 75, 76, 77, 79,
    80, 6, 15, 24, 33, 42, 51, 60, 69, 61, 62, 70, 71], [72, 73, 74, 75, 76, 77, 78, 80, 7, 16, 25,
    34, 43, 52, 61, 70, 60, 62, 69, 71], [72, 73, 74, 75, 76, 77, 78, 79, 8, 17, 26, 35, 44, 53, 62,
    71, 60, 61, 69, 70]]"
  by code_simp

declare PEERS_tab [code]

lemma rd_numeral:
  "rd (x # xs) (numeral k) = rd xs (pred_numeral k)"
  "rd (x # xs) 0 = Ret x"
  "rd (x # xs) 1 = rd xs 0"
  "rd [] i = Panic"
  by (simp_all add: numeral_eq_Suc)

lemma update_numeral:
  "(x # xs)[numeral k := v] = x # xs[pred_numeral k := v]"
  "(x # xs)[1 := v] = x # xs[0 := v]"
  "(x # xs)[0 := v] = v # xs"
  by (simp_all add: numeral_eq_Suc)

lemma rd_PEERS:
  "rd PEERS 0 = Ret [1, 2, 3, 4, 5, 6, 7, 8, 9, 18, 27, 36, 45, 54, 63, 72, 10, 11, 19, 20]"
  "rd PEERS 1 = Ret [0, 2, 3, 4, 5, 6, 7, 8, 10, 19, 28, 37, 46, 55, 64, 73, 9, 11, 18, 20]"
  "rd PEERS 2 = Ret [0, 1, 3, 4, 5, 6, 7, 8, 11, 20, 29, 38, 47, 56, 65, 74, 9, 10, 18, 19]"
  "rd PEERS 3 = Ret [0, 1, 2, 4, 5, 6, 7, 8, 12, 21, 30, 39, 48, 57, 66, 75, 13, 14, 22, 23]"
  "rd PEERS 4 = Ret [0, 1, 2, 3, 5, 6, 7, 8, 13, 22, 31, 40, 49, 58, 67, 76, 12, 14, 21, 23]"
  "rd PEERS 5 = Ret [0, 1, 2, 3, 4, 6, 7, 8, 14, 23, 32, 41, 50, 59, 68, 77, 12, 13, 21, 22]"
  "rd PEERS 6 = Ret [0, 1, 2, 3, 4, 5, 7, 8, 15, 24, 33, 42, 51, 60, 69, 78, 16, 17, 25, 26]"
  "rd PEERS 7 = Ret [0, 1, 2, 3, 4, 5, 6, 8, 16, 25, 34, 43, 52, 61, 70, 79, 15, 17, 24, 26]"
  "rd PEERS 8 = Ret [0, 1, 2, 3, 4, 5, 6, 7, 17, 26, 35, 44, 53, 62, 71, 80, 15, 16, 24, 25]"
  "rd PEERS 9 = Ret [10, 11, 12, 13, 14, 15, 16, 17, 0, 18, 27, 36, 45, 54, 63, 72, 1, 2, 19, 20]"
  "rd PEERS 10 = Ret [9, 11, 12, 13, 14, 15, 16, 17, 1, 19, 28, 37, 46, 55, 64, 73, 0, 2, 18, 20]"
  "rd PEERS 11 = Ret [9, 10, 12, 13, 14, 15, 16, 17, 2, 20, 29, 38, 47, 56, 65, 74, 0, 1, 18, 19]"
  "rd PEERS 12 = Ret [9, 10, 11, 13, 14, 15, 16, 17, 3, 21, 30, 39, 48, 57, 66, 75, 4, 5, 22, 23]"
  "rd PEERS 13 = Ret [9, 10, 11, 12, 14, 15, 16, 17, 4, 22, 31, 40, 49, 58, 67, 76, 3, 5, 21, 23]"
  "rd PEERS 14 = Ret [9, 10, 11, 12, 13, 15, 16, 17, 5, 23, 32, 41, 50, 59, 68, 77, 3, 4, 21, 22]"
  "rd PEERS 15 = Ret [9, 10, 11, 12, 13, 14, 16, 17, 6, 24, 33, 42, 51, 60, 69, 78, 7, 8, 25, 26]"
  "rd PEERS 16 = Ret [9, 10, 11, 12, 13, 14, 15, 17, 7, 25, 34, 43, 52, 61, 70, 79, 6, 8, 24, 26]"
  "rd PEERS 17 = Ret [9, 10, 11, 12, 13, 14, 15, 16, 8, 26, 35, 44, 53, 62, 71, 80, 6, 7, 24, 25]"
  "rd PEERS 18 = Ret [19, 20, 21, 22, 23, 24, 25, 26, 0, 9, 27, 36, 45, 54, 63, 72, 1, 2, 10, 11]"
  "rd PEERS 19 = Ret [18, 20, 21, 22, 23, 24, 25, 26, 1, 10, 28, 37, 46, 55, 64, 73, 0, 2, 9, 11]"
  "rd PEERS 20 = Ret [18, 19, 21, 22, 23, 24, 25, 26, 2, 11, 29, 38, 47, 56, 65, 74, 0, 1, 9, 10]"
  "rd PEERS 21 = Ret [18, 19, 20, 22, 23, 24, 25, 26, 3, 12, 30, 39, 48, 57, 66, 75, 4, 5, 13, 14]"
  "rd PEERS 22 = Ret [18, 19, 20, 21, 23, 24, 25, 26, 4, 13, 31, 40, 49, 58, 67, 76, 3, 5, 12, 14]"
  "rd PEERS 23 = Ret [18, 19, 20, 21, 22, 24, 25, 26, 5, 14, 32, 41, 50, 59, 68, 77, 3, 4, 12, 13]"
  "rd PEERS 24 = Ret [18, 19, 20, 21, 22, 23, 25, 26, 6, 15, 33, 42, 51, 60, 69, 78, 7, 8, 16, 17]"
  "rd PEERS 25 = Ret [18, 19, 20, 21, 22, 23, 24, 26, 7, 16, 34, 43, 52, 61, 70, 79, 6, 8, 15, 17]"
  "rd PEERS 26 = Ret [18, 19, 20, 21, 22, 23, 24, 25, 8, 17, 35, 44, 53, 62, 71, 80, 6, 7, 15, 16]"
  "rd PEERS 27 = Ret [28, 29, 30, 31, 32, 33, 34, 35, 0, 9, 18, 36, 45, 54, 63, 72, 37, 38, 46, 47]"
  "rd PEERS 28 = Ret [27, 29, 30, 31, 32, 33, 34, 35, 1, 10, 19, 37, 46, 55, 64, 73, 36, 38, 45, 47]"
  "rd PEERS 29 = Ret [27, 28, 30, 31, 32, 33, 34, 35, 2, 11, 20, 38, 47, 56, 65, 74, 36, 37, 45, 46]"
  "rd PEERS 30 = Ret [27, 28, 29, 31, 32, 33, 34, 35, 3, 12, 21, 39, 48, 57, 66, 75, 40, 41, 49, 50]"
  "rd PEERS 31 = Ret [27, 28, 29, 30, 32, 33, 34, 35, 4, 13, 22, 40, 49, 58, 67, 76, 39, 41, 48, 50]"
  "rd PEERS 32 = Ret [27, 28, 29, 30, 31, 33, 34, 35, 5, 14, 23, 41, 50, 59, 68, 77, 39, 40, 48, 49]"
  "rd PEERS 33 = Ret [27, 28, 29, 30, 31, 32, 34, 35, 6, 15, 24, 42, 51, 60, 69, 78, 43, 44, 52, 53]"
  "rd PEERS 34 = Ret [27, 28, 29, 30, 31, 32, 33, 35, 7, 16, 25, 43, 52, 61, 70, 79, 42, 44, 51, 53]"
  "rd PEERS 35 = Ret [27, 28, 29, 30, 31, 32, 33, 34, 8, 17, 26, 44, 53, 62, 71, 80, 42, 43, 51, 52]"
  "rd PEERS 36 = Ret [37, 38, 39, 40, 41, 42, 43, 44, 0, 9, 18, 27, 45, 54, 63, 72, 28, 29, 46, 47]"
  "rd PEERS 37 = Ret [36, 38, 39, 40, 41, 42, 43, 44, 1, 10, 19, 28, 46, 55, 64, 73, 27, 29, 45, 47]"
  "rd PEERS 38 = Ret [36, 37, 39, 40, 41, 42, 43, 44, 2, 11, 20, 29, 47, 56, 65, 74, 27, 28, 45, 46]"
  "rd PEERS 39 = Ret [36, 37, 38, 40, 41, 42, 43, 44, 3, 12, 21, 30, 48, 57, 66, 75, 31, 32, 49, 50]"
  "rd PEERS 40 = Ret [36, 37, 38, 39, 41, 42, 43, 44, 4, 13, 22, 31, 49, 58, 67, 76, 30, 32, 48, 50]"
  "rd PEERS 41 = Ret [36, 37, 38, 39, 40, 42, 43, 44, 5, 14, 23, 32, 50, 59, 68, 77, 30, 31, 48, 49]"
  "rd PEERS 42 = Ret [36, 37, 38, 39, 40, 41, 43, 44, 6, 15, 24, 33, 51, 60, 69, 78, 34, 35, 52, 53]"
  "rd PEERS 43 = Ret [36, 37, 38, 39, 40, 41, 42, 44, 7, 16, 25, 34, 52, 61, 70, 79, 33, 35, 51, 53]"
  "rd PEERS 44 = Ret [36, 37, 38, 39, 40, 41, 42, 43, 8, 17, 26, 35, 53, 62, 71, 80, 33, 34, 51, 52]"
  "rd PEERS 45 = Ret [46, 47, 48, 49, 50, 51, 52, 53, 0, 9, 18, 27, 36, 54, 63, 72, 28, 29, 37, 38]"
  "rd PEERS 46 = Ret [45, 47, 48, 49, 50, 51, 52, 53, 1, 10, 19, 28, 37, 55, 64, 73, 27, 29, 36, 38]"
  "rd PEERS 47 = Ret [45, 46, 48, 49, 50, 51, 52, 53, 2, 11, 20, 29, 38, 56, 65, 74, 27, 28, 36, 37]"
  "rd PEERS 48 = Ret [45, 46, 47, 49, 50, 51, 52, 53, 3, 12, 21, 30, 39, 57, 66, 75, 31, 32, 40, 41]"
  "rd PEERS 49 = Ret [45, 46, 47, 48, 50, 51, 52, 53, 4, 13, 22, 31, 40, 58, 67, 76, 30, 32, 39, 41]"
  "rd PEERS 50 = Ret [45, 46, 47, 48, 49, 51, 52, 53, 5, 14, 23, 32, 41, 59, 68, 77, 30, 31, 39, 40]"
  "rd PEERS 51 = Ret [45, 46, 47, 48, 49, 50, 52, 53, 6, 15, 24, 33, 42, 60, 69, 78, 34, 35, 43, 44]"
  "rd PEERS 52 = Ret [45, 46, 47, 48, 49, 50, 51, 53, 7, 16, 25, 34, 43, 61, 70, 79, 33, 35, 42, 44]"
  "rd PEERS 53 = Ret [45, 46, 47, 48, 49, 50, 51, 52, 8, 17, 26, 35, 44, 62, 71, 80, 33, 34, 42, 43]"
  "rd PEERS 54 = Ret [55, 56, 57, 58, 59, 60, 61, 62, 0, 9, 18, 27, 36, 45, 63, 72, 64, 65, 73, 74]"
  "rd PEERS 55 = Ret [54, 56, 57, 58, 59, 60, 61, 62, 1, 10, 19, 28, 37, 46, 64, 73, 63, 65, 72, 74]"
  "rd PEERS 56 = Ret [54, 55, 57, 58, 59, 60, 61, 62, 2, 11, 20, 29, 38, 47, 65, 74, 63, 64, 72, 73]"
  "rd PEERS 57 = Ret [54, 55, 56, 58, 59, 60, 61, 62, 3, 12, 21, 30, 39, 48, 66, 75, 67, 68, 76, 77]"
  "rd PEERS 58 = Ret [54, 55, 56, 57, 59, 60, 61, 62, 4, 13, 22, 31, 40, 49, 67, 76, 66, 68, 75, 77]"
  "rd PEERS 59 = Ret [54, 55, 56, 57, 58, 60, 61, 62, 5, 14, 23, 32, 41, 50, 68, 77, 66, 67, 75, 76]"
  "rd PEERS 60 = Ret [54, 55, 56, 57, 58, 59, 61, 62, 6, 15, 24, 33, 42, 51, 69, 78, 70, 71, 79, 80]"
  "rd PEERS 61 = Ret [54, 55, 56, 57, 58, 59, 60, 62, 7, 16, 25, 34, 43, 52, 70, 79, 69, 71, 78, 80]"
  "rd PEERS 62 = Ret [54, 55, 56, 57, 58, 59, 60, 61, 8, 17, 26, 35, 44, 53, 71, 80, 69, 70, 78, 79]"
  "rd PEERS 63 = Ret [64, 65, 66, 67, 68, 69, 70, 71, 0, 9, 18, 27, 36, 45, 54, 72, 55, 56, 73, 74]"
  "rd PEERS 64 = Ret [63, 65, 66, 67, 68, 69, 70, 71, 1, 10, 19, 28, 37, 46, 55, 73, 54, 56, 72, 74]"
  "rd PEERS 65 = Ret [63, 64, 66, 67, 68, 69, 70, 71, 2, 11, 20, 29, 38, 47, 56, 74, 54, 55, 72, 73]"
  "rd PEERS 66 = Ret [63, 64, 65, 67, 68, 69, 70, 71, 3, 12, 21, 30, 39, 48, 57, 75, 58, 59, 76, 77]"
  "rd PEERS 67 = Ret [63, 64, 65, 66, 68, 69, 70, 71, 4, 13, 22, 31, 40, 49, 58, 76, 57, 59, 75, 77]"
  "rd PEERS 68 = Ret [63, 64, 65, 66, 67, 69, 70, 71, 5, 14, 23, 32, 41, 50, 59, 77, 57, 58, 75, 76]"
  "rd PEERS 69 = Ret [63, 64, 65, 66, 67, 68, 70, 71, 6, 15, 24, 33, 42, 51, 60, 78, 61, 62, 79, 80]"
  "rd PEERS 70 = Ret [63, 64, 65, 66, 67, 68, 69, 71, 7, 16, 25, 34, 43, 52, 61, 79, 60, 62, 78, 80]"
  "rd PEERS 71 = Ret [63, 64, 65, 66, 67, 68, 69, 70, 8, 17, 26, 35, 44, 53, 62, 80, 60, 61, 78, 79]"
  "rd PEERS 72 = Ret [73, 74, 75, 76, 77, 78, 79, 80, 0, 9, 18, 27, 36, 45, 54, 63, 55, 56, 64, 65]"
  "rd PEERS 73 = Ret [72, 74, 75, 76, 77, 78, 79, 80, 1, 10, 19, 28, 37, 46, 55, 64, 54, 56, 63, 65]"
  "rd PEERS 74 = Ret [72, 73, 75, 76, 77, 78, 79, 80, 2, 11, 20, 29, 38, 47, 56, 65, 54, 55, 63, 64]"
  "rd PEERS 75 = Ret [72, 73, 74, 76, 77, 78, 79, 80, 3, 12, 21, 30, 39, 48, 57, 66, 58, 59, 67, 68]"
  "rd PEERS 76 = Ret [72, 73, 74, 75, 77, 78, 79, 80, 4, 13, 22, 31, 40, 49, 58, 67, 57, 59, 66, 68]"
  "rd PEERS 77 = Ret [72, 73, 74, 75, 76, 78, 79, 80, 5, 14, 23, 32, 41, 50, 59, 68, 57, 58, 66, 67]"
  "rd PEERS 78 = Ret [72, 73, 74, 75, 76, 77, 79, 80, 6, 15, 24, 33, 42, 51, 60, 69, 61, 62, 70, 71]"
  "rd PEERS 79 = Ret [72, 73, 74, 75, 76, 77, 78, 80, 7, 16, 25, 34, 43, 52, 61, 70, 60, 62, 69, 71]"
  "rd PEERS 80 = Ret [72, 73, 74, 75, 76, 77, 78, 79, 8, 17, 26, 35, 44, 53, 62, 71, 60, 61, 69, 70]"
  unfolding PEERS_tab by (simp_all only: rd_numeral pred_numeral_simps Num.BitM.simps)

lemma rd_UNITS:
  "rd UNITS 0 =
     Ret [[0, 1, 2, 3, 4, 5, 6, 7, 8], [0, 9, 18, 27, 36, 45, 54, 63, 72], [0, 1, 2, 9, 10, 11, 18, 19, 20]]"
  "rd UNITS 1 =
     Ret [[0, 1, 2, 3, 4, 5, 6, 7, 8], [1, 10, 19, 28, 37, 46, 55, 64, 73], [0, 1, 2, 9, 10, 11, 18, 19, 20]]"
  "rd UNITS 2 =
     Ret [[0, 1, 2, 3, 4, 5, 6, 7, 8], [2, 11, 20, 29, 38, 47, 56, 65, 74], [0, 1, 2, 9, 10, 11, 18, 19, 20]]"
  "rd UNITS 3 =
     Ret [[0, 1, 2, 3, 4, 5, 6, 7, 8], [3, 12, 21, 30, 39, 48, 57, 66, 75], [3, 4, 5, 12, 13, 14, 21, 22, 23]]"
  "rd UNITS 4 =
     Ret [[0, 1, 2, 3, 4, 5, 6, 7, 8], [4, 13, 22, 31, 40, 49, 58, 67, 76], [3, 4, 5, 12, 13, 14, 21, 22, 23]]"
  "rd UNITS 5 =
     Ret [[0, 1, 2, 3, 4, 5, 6, 7, 8], [5, 14, 23, 32, 41, 50, 59, 68, 77], [3, 4, 5, 12, 13, 14, 21, 22, 23]]"
  "rd UNITS 6 =
     Ret [[0, 1, 2, 3, 4, 5, 6, 7, 8], [6, 15, 24, 33, 42, 51, 60, 69, 78], [6, 7, 8, 15, 16, 17, 24, 25, 26]]"
  "rd UNITS 7 =
     Ret [[0, 1, 2, 3, 4, 5, 6, 7, 8], [7, 16, 25, 34, 43, 52, 61, 70, 79], [6, 7, 8, 15, 16, 17, 24, 25, 26]]"
  "rd UNITS 8 =
     Ret [[0, 1, 2, 3, 4, 5, 6, 7, 8], [8, 17, 26, 35, 44, 53, 62, 71, 80], [6, 7, 8, 15, 16, 17, 24, 25, 26]]"
  "rd UNITS 9 =
     Ret [[9, 10, 11, 12, 13, 14, 15, 16, 17], [0, 9, 18, 27, 36, 45, 54, 63, 72], [0, 1, 2, 9, 10, 11, 18, 19, 20]]"
  "rd UNITS 10 =
     Ret [[9, 10, 11, 12, 13, 14, 15, 16, 17], [1, 10, 19, 28, 37, 46, 55, 64, 73], [0, 1, 2, 9, 10, 11, 18, 19, 20]]"
  "rd UNITS 11 =
     Ret [[9, 10, 11, 12, 13, 14, 15, 16, 17], [2, 11, 20, 29, 38, 47, 56, 65, 74], [0, 1, 2, 9, 10, 11, 18, 19, 20]]"
  "rd UNITS 12 =
     Ret [[9, 10, 11, 12, 13, 14, 15, 16, 17], [3, 12, 21, 30, 39, 48, 57, 66, 75], [3, 4, 5, 12, 13, 14, 21, 22, 23]]"
  "rd UNITS 13 =
     Ret [[9, 10, 11, 12, 13, 14, 15, 16, 17], [4, 13, 22, 31, 40, 49, 58, 67, 76], [3, 4, 5, 12, 13, 14, 21, 22, 23]]"
  "rd UNITS 14 =
     Ret [[9, 10, 11, 12, 13, 14, 15, 16, 17], [5, 14, 23, 32, 41, 50, 59, 68, 77], [3, 4, 5, 12, 13, 14, 21, 22, 23]]"
  "rd UNITS 15 =
     Ret [[9, 10, 11, 12, 13, 14, 15, 16, 17], [6, 15, 24, 33, 42, 51, 60, 69, 78], [6, 7, 8, 15, 16, 17, 24, 25, 26]]"
  "rd UNITS 16 =
     Ret [[9, 10, 11, 12, 13, 14, 15, 16, 17], [7, 16, 25, 34, 43, 52, 61, 70, 79], [6, 7, 8, 15, 16, 17, 24, 25, 26]]"
  "rd UNITS 17 =
     Ret [[9, 10, 11, 12, 13, 14, 15, 16, 17], [8, 17, 26, 35, 44, 53, 62, 71, 80], [6, 7, 8, 15, 16, 17, 24, 25, 26]]"
  "rd UNITS 18 =
     Ret [[18, 19, 20, 21, 22, 23, 24, 25, 26], [0, 9, 18, 27, 36, 45, 54, 63, 72], [0, 1, 2, 9, 10, 11, 18, 19, 20]]"
  "rd UNITS 19 =
     Ret [[18, 19, 20, 21, 22, 23, 24, 25, 26], [1, 10, 19, 28, 37, 46, 55, 64, 73], [0, 1, 2, 9, 10, 11, 18, 19, 20]]"
  "rd UNITS 20 =
     Ret [[18, 19, 20, 21, 22, 23, 24, 25, 26], [2, 11, 20, 29, 38, 47, 56, 65, 74], [0, 1, 2, 9, 10, 11, 18, 19, 20]]"
  "rd UNITS 21 =
     Ret [[18, 19, 20, 21, 22, 23, 24, 25, 26], [3, 12, 21, 30, 39, 48, 57, 66, 75], [3, 4, 5, 12, 13, 14, 21, 22, 23]]"
  "rd UNITS 22 =
     Ret [[18, 19, 20, 21, 22, 23, 24, 25, 26], [4, 13, 22, 31, 40, 49, 58, 67, 76], [3, 4, 5, 12, 13, 14, 21, 22, 23]]"
  "rd UNITS 23 =
     Ret [[18, 19, 20, 21, 22, 23, 24, 25, 26], [5, 14, 23, 32, 41, 50, 59, 68, 77], [3, 4, 5, 12, 13, 14, 21, 22, 23]]"
  "rd UNITS 24 =
     Ret [[18, 19, 20, 21, 22, 23, 24, 25, 26], [6, 15, 24, 33, 42, 51, 60, 69, 78], [6, 7, 8, 15, 16, 17, 24, 25, 26]]"
  "rd UNITS 25 =
     Ret [[18, 19, 20, 21, 22, 23, 24, 25, 26], [7, 16, 25, 34, 43, 52, 61, 70, 79], [6, 7, 8, 15, 16, 17, 24, 25, 26]]"
  "rd UNITS 26 =
     Ret [[18, 19, 20, 21, 22, 23, 24, 25, 26], [8, 17, 26, 35, 44, 53, 62, 71, 80], [6, 7, 8, 15, 16, 17, 24, 25, 26]]"
  "rd UNITS 27 =
     Ret [[27, 28, 29, 30, 31, 32, 33, 34, 35], [0, 9, 18, 27, 36, 45, 54, 63, 72], [27, 28, 29, 36, 37, 38, 45, 46, 47]]"
  "rd UNITS 28 =
     Ret [[27, 28, 29, 30, 31, 32, 33, 34, 35], [1, 10, 19, 28, 37, 46, 55, 64, 73], [27, 28, 29, 36, 37, 38, 45, 46, 47]]"
  "rd UNITS 29 =
     Ret [[27, 28, 29, 30, 31, 32, 33, 34, 35], [2, 11, 20, 29, 38, 47, 56, 65, 74], [27, 28, 29, 36, 37, 38, 45, 46, 47]]"
  "rd UNITS 30 =
     Ret [[27, 28, 29, 30, 31, 32, 33, 34, 35], [3, 12, 21, 30, 39, 48, 57, 66, 75], [30, 31, 32, 39, 40, 41, 48, 49, 50]]"
  "rd UNITS 31 =
     Ret [[27, 28, 29, 30, 31, 32, 33, 34, 35], [4, 13, 22, 31, 40, 49, 58, 67, 76], [30, 31, 32, 39, 40, 41, 48, 49, 50]]"
  "rd UNITS 32 =
     Ret [[27, 28, 29, 30, 31, 32, 33, 34, 35], [5, 14, 23, 32, 41, 50, 59, 68, 77], [30, 31, 32, 39, 40, 41, 48, 49, 50]]"
  "rd UNITS 33 =
     Ret [[27, 28, 29, 30, 31, 32, 33, 34, 35], [6, 15, 24, 33, 42, 51, 60, 69, 78], [33, 34, 35, 42, 43, 44, 51, 52, 53]]"
  "rd UNITS 34 =
     Ret [[27, 28, 29, 30, 31, 32, 33, 34, 35], [7, 16, 25, 34, 43, 52, 61, 70, 79], [33, 34, 35, 42, 43, 44, 51, 52, 53]]"
  "rd UNITS 35 =
     Ret [[27, 28, 29, 30, 31, 32, 33, 34, 35], [8, 17, 26, 35, 44, 53, 62, 71, 80], [33, 34, 35, 42, 43, 44, 51, 52, 53]]"
  "rd UNITS 36 =
     Ret [[36, 37, 38, 39, 40, 41, 42, 43, 44], [0, 9, 18, 27, 36, 45, 54, 63, 72], [27, 28, 29, 36, 37, 38, 45, 46, 47]]"
  "rd UNITS 37 =
     Ret [[36, 37, 38, 39, 40, 41, 42, 43, 44], [1, 10, 19, 28, 37, 46, 55, 64, 73], [27, 28, 29, 36, 37, 38, 45, 46, 47]]"
  "rd UNITS 38 =
     Ret [[36, 37, 38, 39, 40, 41, 42, 43, 44], [2, 11, 20, 29, 38, 47, 56, 65, 74], [27, 28, 29, 36, 37, 38, 45, 46, 47]]"
  "rd UNITS 39 =
     Ret [[36, 37, 38, 39, 40, 41, 42, 43, 44], [3, 12, 21, 30, 39, 48, 57, 66, 75], [30, 31, 32, 39, 40, 41, 48, 49, 50]]"
  "rd UNITS 40 =
     Ret [[36, 37, 38, 39, 40, 41, 42, 43, 44], [4, 13, 22, 31, 40, 49, 58, 67, 76], [30, 31, 32, 39, 40, 41, 48, 49, 50]]"
  "rd UNITS 41 =
     Ret [[36, 37, 38, 39, 40, 41, 42, 43, 44], [5, 14, 23, 32, 41, 50, 59, 68, 77], [30, 31, 32, 39, 40, 41, 48, 49, 50]]"
  "rd UNITS 42 =
     Ret [[36, 37, 38, 39, 40, 41, 42, 43, 44], [6, 15, 24, 33, 42, 51, 60, 69, 78], [33, 34, 35, 42, 43, 44, 51, 52, 53]]"
  "rd UNITS 43 =
     Ret [[36, 37, 38, 39, 40, 41, 42, 43, 44], [7, 16, 25, 34, 43, 52, 61, 70, 79], [33, 34, 35, 42, 43, 44, 51, 52, 53]]"
  "rd UNITS 44 =
     Ret [[36, 37, 38, 39, 40, 41, 42, 43, 44], [8, 17, 26, 35, 44, 53, 62, 71, 80], [33, 34, 35, 42, 43, 44, 51, 52, 53]]"
  "rd UNITS 45 =
     Ret [[45, 46, 47, 48, 49, 50, 51, 52, 53], [0, 9, 18, 27, 36, 45, 54, 63, 72], [27, 28, 29, 36, 37, 38, 45, 46, 47]]"
  "rd UNITS 46 =
     Ret [[45, 46, 47, 48, 49, 50, 51, 52, 53], [1, 10, 19, 28, 37, 46, 55, 64, 73], [27, 28, 29, 36, 37, 38, 45, 46, 47]]"
  "rd UNITS 47 =
     Ret [[45, 46, 47, 48, 49, 50, 51, 52, 53], [2, 11, 20, 29, 38, 47, 56, 65, 74], [27, 28, 29, 36, 37, 38, 45, 46, 47]]"
  "rd UNITS 48 =
     Ret [[45, 46, 47, 48, 49, 50, 51, 52, 53], [3, 12, 21, 30, 39, 48, 57, 66, 75], [30, 31, 32, 39, 40, 41, 48, 49, 50]]"
  "rd UNITS 49 =
     Ret [[45, 46, 47, 48, 49, 50, 51, 52, 53], [4, 13, 22, 31, 40, 49, 58, 67, 76], [30, 31, 32, 39, 40, 41, 48, 49, 50]]"
  "rd UNITS 50 =
     Ret [[45, 46, 47, 48, 49, 50, 51, 52, 53], [5, 14, 23, 32, 41, 50, 59, 68, 77], [30, 31, 32, 39, 40, 41, 48, 49, 50]]"
  "rd UNITS 51 =
     Ret [[45, 46, 47, 48, 49, 50, 51, 52, 53], [6, 15, 24, 33, 42, 51, 60, 69, 78], [33, 34, 35, 42, 43, 44, 51, 52, 53]]"
  "rd UNITS 52 =
     Ret [[45, 46, 47, 48, 49, 50, 51, 52, 53], [7, 16, 25, 34, 43, 52, 61, 70, 79], [33, 34, 35, 42, 43, 44, 51, 52, 53]]"
  "rd UNITS 53 =
     Ret [[45, 46, 47, 48, 49, 50, 51, 52, 53], [8, 17, 26, 35, 44, 53, 62, 71, 80], [33, 34, 35, 42, 43, 44, 51, 52, 53]]"
  "rd UNITS 54 =
     Ret [[54, 55, 56, 57, 58, 59, 60, 61, 62], [0, 9, 18, 27, 36, 45, 54, 63, 72], [54, 55, 56, 63, 64, 65, 72, 73, 74]]"
  "rd UNITS 55 =
     Ret [[54, 55, 56, 57, 58, 59, 60, 61, 62], [1, 10, 19, 28, 37, 46, 55, 64, 73], [54, 55, 56, 63, 64, 65, 72, 73, 74]]"
  "rd UNITS 56 =
     Ret [[54, 55, 56, 57, 58, 59, 60, 61, 62], [2, 11, 20, 29, 38, 47, 56, 65, 74], [54, 55, 56, 63, 64, 65, 72, 73, 74]]"
  "rd UNITS 57 =
     Ret [[54, 55, 56, 57, 58, 59, 60, 61, 62], [3, 12, 21, 30, 39, 48, 57, 66, 75], [57, 58, 59, 66, 67, 68, 75, 76, 77]]"
  "rd UNITS 58 =
     Ret [[54, 55, 56, 57, 58, 59, 60, 61, 62], [4, 13, 22, 31, 40, 49, 58, 67, 76], [57, 58, 59, 66, 67, 68, 75, 76, 77]]"
  "rd UNITS 59 =
     Ret [[54, 55, 56, 57, 58, 59, 60, 61, 62], [5, 14, 23, 32, 41, 50, 59, 68, 77], [57, 58, 59, 66, 67, 68, 75, 76, 77]]"
  "rd UNITS 60 =
     Ret [[54, 55, 56, 57, 58, 59, 60, 61, 62], [6, 15, 24, 33, 42, 51, 60, 69, 78], [60, 61, 62, 69, 70, 71, 78, 79, 80]]"
  "rd UNITS 61 =
     Ret [[54, 55, 56, 57, 58, 59, 60, 61, 62], [7, 16, 25, 34, 43, 52, 61, 70, 79], [60, 61, 62, 69, 70, 71, 78, 79, 80]]"
  "rd UNITS 62 =
     Ret [[54, 55, 56, 57, 58, 59, 60, 61, 62], [8, 17, 26, 35, 44, 53, 62, 71, 80], [60, 61, 62, 69, 70, 71, 78, 79, 80]]"
  "rd UNITS 63 =
     Ret [[63, 64, 65, 66, 67, 68, 69, 70, 71], [0, 9, 18, 27, 36, 45, 54, 63, 72], [54, 55, 56, 63, 64, 65, 72, 73, 74]]"
  "rd UNITS 64 =
     Ret [[63, 64, 65, 66, 67, 68, 69, 70, 71], [1, 10, 19, 28, 37, 46, 55, 64, 73], [54, 55, 56, 63, 64, 65, 72, 73, 74]]"
  "rd UNITS 65 =
     Ret [[63, 64, 65, 66, 67, 68, 69, 70, 71], [2, 11, 20, 29, 38, 47, 56, 65, 74], [54, 55, 56, 63, 64, 65, 72, 73, 74]]"
  "rd UNITS 66 =
     Ret [[63, 64, 65, 66, 67, 68, 69, 70, 71], [3, 12, 21, 30, 39, 48, 57, 66, 75], [57, 58, 59, 66, 67, 68, 75, 76, 77]]"
  "rd UNITS 67 =
     Ret [[63, 64, 65, 66, 67, 68, 69, 70, 71], [4, 13, 22, 31, 40, 49, 58, 67, 76], [57, 58, 59, 66, 67, 68, 75, 76, 77]]"
  "rd UNITS 68 =
     Ret [[63, 64, 65, 66, 67, 68, 69, 70, 71], [5, 14, 23, 32, 41, 50, 59, 68, 77], [57, 58, 59, 66, 67, 68, 75, 76, 77]]"
  "rd UNITS 69 =
     Ret [[63, 64, 65, 66, 67, 68, 69, 70, 71], [6, 15, 24, 33, 42, 51, 60, 69, 78], [60, 61, 62, 69, 70, 71, 78, 79, 80]]"
  "rd UNITS 70 =
     Ret [[63, 64, 65, 66, 67, 68, 69, 70, 71], [7, 16, 25, 34, 43, 52, 61, 70, 79], [60, 61, 62, 69, 70, 71, 78, 79, 80]]"
  "rd UNITS 71 =
     Ret [[63, 64, 65, 66, 67, 68, 69, 70, 71], [8, 17, 26, 35, 44, 53, 62, 71, 80], [60, 61, 62, 69, 70, 71, 78, 79, 80]]"
  "rd UNITS 72 =
     Ret [[72, 73, 74, 75, 76, 77, 78, 79, 80], [0, 9, 18, 27, 36, 45, 54, 63, 72], [54, 55, 56, 63, 64, 65, 72, 73, 74]]"
  "rd UNITS 73 =
     Ret [[72, 73, 74, 75, 76, 77, 78, 79, 80], [1, 10, 19, 28, 37, 46, 55, 64, 73], [54, 55, 56, 63, 64, 65, 72, 73, 74]]"
  "rd UNITS 74 =
     Ret [[72, 73, 74, 75, 76, 77, 78, 79, 80], [2, 11, 20, 29, 38, 47, 56, 65, 74], [54, 55, 56, 63, 64, 65, 72, 73, 74]]"
  "rd UNITS 75 =
     Ret [[72, 73, 74, 75, 76, 77, 78, 79, 80], [3, 12, 21, 30, 39, 48, 57, 66, 75], [57, 58, 59, 66, 67, 68, 75, 76, 77]]"
  "rd UNITS 76 =
     Ret [[72, 73, 74, 75, 76, 77, 78, 79, 80], [4, 13, 22, 31, 40, 49, 58, 67, 76], [57, 58, 59, 66, 67, 68, 75, 76, 77]]"
  "rd UNITS 77 =
     Ret [[72, 73, 74, 75, 76, 77, 78, 79, 80], [5, 14, 23, 32, 41, 50, 59, 68, 77], [57, 58, 59, 66, 67, 68, 75, 76, 77]]"
  "rd UNITS 78 =
     Ret [[72, 73, 74, 75, 76, 77, 78, 79, 80], [6, 15, 24, 33, 42, 51, 60, 69, 78], [60, 61, 62, 69, 70, 71, 78, 79, 80]]"
  "rd UNITS 79 =
     Ret [[72, 73, 74, 75, 76, 77, 78, 79, 80], [7, 16, 25, 34, 43, 52, 61, 70, 79], [60, 61, 62, 69, 70, 71, 78, 79, 80]]"
  "rd UNITS 80 =
     Ret [[72, 73, 74, 75, 76, 77, 78, 79, 80], [8, 17, 26, 35, 44, 53, 62, 71, 80], [60, 61, 62, 69, 70, 71, 78, 79, 80]]"
  unfolding UNITS_tab by (simp_all only: rd_numeral pred_numeral_simps Num.BitM.simps)

section \<open>Rules for running the propagation on a given grid\<close>

lemma OnesCount_numeral: "OnesCount (numeral k) = num_ones k"
proof (induction k)
  case One
  show ?case by (simp add: OnesCount.simps)
next
  case (Bit0 k)
  have "OnesCount (numeral (Num.Bit0 k))
      = numeral (Num.Bit0 k) mod 2 + OnesCount (numeral (Num.Bit0 k) div 2)"
    by (subst OnesCount.simps) simp
  then show ?case using Bit0 by simp
next
  case (Bit1 k)
  have "OnesCount (numeral (Num.Bit1 k))
      = numeral (Num.Bit1 k) mod 2 + OnesCount (numeral (Num.Bit1 k) div 2)"
    by (subst OnesCount.simps) simp
  then show ?case using Bit1 by simp
qed

lemma OnesCount_0: "OnesCount 0 = 0"
  by (subst OnesCount.simps) simp

lemma OnesCount_1: "OnesCount 1 = 1"
  by (subst OnesCount.simps) (simp add: OnesCount_0)

lemma NUM_DIGITS_numeral:
  "NUM_DIGITS (numeral k) = (if (numeral k :: int) \<le> 511 then Ret (num_ones k) else Panic)"
  "NUM_DIGITS 0 = Ret 0"
  "NUM_DIGITS 1 = Ret 1"
  by (simp_all add: NUM_DIGITS_def ALL_DIGITS_def OnesCount_numeral OnesCount_0 OnesCount_1)

lemma fuel_numeral:
  "fill (numeral k) = fill (Suc (pred_numeral k))"
  "eliminate (numeral k) = eliminate (Suc (pred_numeral k))"
  "arcConsistent (numeral k) = arcConsistent (Suc (pred_numeral k))"
  "dualConsistent (numeral k) = dualConsistent (Suc (pred_numeral k))"
  by (simp_all add: numeral_eq_Suc)

lemma int_nat_numeral:
  "int (numeral k) = numeral k" "int 0 = 0" "int 1 = 1"
  "nat (numeral k) = numeral k" "nat 0 = 0" "nat 1 = 1"
  by simp_all

lemma and_one_numeral:
  "(numeral (Num.Bit0 x) :: int) AND 1 = 0" "(numeral (Num.Bit1 x) :: int) AND 1 = 1"
  "(1 :: int) AND numeral (Num.Bit0 x) = 0" "(1 :: int) AND numeral (Num.Bit1 x) = 1"
  "(1 :: int) AND 1 = 1" "(0 :: int) AND a = 0" "a AND (0 :: int) = 0"
  by simp_all

lemma pos_numeral: "((0 :: int) < numeral k) = True" "((0 :: int) < 0) = False" "((0 :: int) < 1) = True"
  by simp_all

lemmas run_rules =
  and_one_numeral NUM_DIGITS_numeral num_ones.simps rd_numeral update_numeral rd_PEERS rd_UNITS
  fuel_numeral ALL_DIGITS_def fill.simps fill_peers.simps eliminate.simps arcConsistent.simps
  dualConsistent.simps dual_units.simps dplaces.simps init_loop.simps
  res.case prod.case option.case if_True if_False simp_thms
  arith_simps more_arith_simps rel_simps pred_numeral_simps arith_special
  numeral_and_num and_num.simps map_option_case option.map int_nat_numeral pos_numeral

lemmas run_congs = if_weak_cong res.case_cong_weak prod.case_cong_weak option.case_cong_weak

section \<open>The scenario of the specification\<close>

lemma init_loop_append:
  "init_loop n puzzle grid (ss @ ts) =
     (case init_loop n puzzle grid ss of
        Ret grid' \<Rightarrow> init_loop n puzzle grid' ts
      | Panic \<Rightarrow> Panic
      | Diverge \<Rightarrow> Diverge)"
  by (induction ss arbitrary: grid) (auto split: res.splits)

lemma upt_numeral:
  "[0 ..< numeral n] = 0 # [1 ..< numeral n]"
  "[1 ..< numeral n] =
     (if (1 :: nat) < numeral n then 1 # [numeral (Num.One + Num.One) ..< numeral n] else [])"
  "[numeral m ..< numeral n] =
     (if (numeral m :: nat) < numeral n
      then numeral m # [numeral (m + Num.One) ..< numeral n] else [])"
proof -
  show "[0 ..< numeral n] = 0 # [1 ..< numeral n]"
    by (subst upt_rec) (simp only: zero_less_numeral if_True One_nat_def)
  show "[1 ..< numeral n] =
     (if (1 :: nat) < numeral n then 1 # [numeral (Num.One + Num.One) ..< numeral n] else [])"
    by (subst upt_rec) (simp only: Suc_1 add_num_simps)
  show "[numeral m ..< numeral n] =
     (if (numeral m :: nat) < numeral n
      then numeral m # [numeral (m + Num.One) ..< numeral n] else [])"
    by (subst upt_rec) (simp only: Suc_numeral)
qed

lemma replicate_numeral_run:
  "replicate (numeral k) x = x # replicate (pred_numeral k) x"
  "replicate 0 x = []"
  by (simp_all add: numeral_eq_Suc)

lemma init_given80:
  "init_loop 150 (norvig_given80 @ [x]) (replicate (N * N) ALL_DIGITS) [0 ..< 80]
     = Ret norvig_solution"
  by (simp only: norvig_given80_def norvig_solution_def N_def upt_numeral
      replicate_numeral_run run_rules append.simps cong: run_congs)

lemma squares_split: "[0 ..< length SQUARES] = [0 ..< 80] @ [80]"
proof -
  have "[0 ..< Suc 80] = [0 ..< 80] @ [80]" by (rule upt_Suc_append) simp
  then show ?thesis by (simp add: SQUARES_def N_def)
qed

lemma norvig_puzzle_split: "norvig_puzzle = norvig_given80 @ [511]"
  by (simp add: norvig_puzzle_def norvig_given80_def)

lemma rd_last: "length xs = 80 \<Longrightarrow> rd (xs @ [x]) 80 = Ret x"
  by (simp add: rd_nth nth_append)

lemma initialize_norvig: "initialize 150 norvig_puzzle = Ret (Some norvig_solution)"
proof -
  have l: "length norvig_given80 = 80" by (simp add: norvig_given80_def)
  show ?thesis
    unfolding initialize_def squares_split init_loop_append norvig_puzzle_split init_given80
    by (simp add: rd_last [OF l] ALL_DIGITS_def)
qed

lemma fuel_150: "(150 :: nat) = Suc 149"
  by simp

lemma initialize_contradictory:
  "initialize 150 contradictory_puzzle = Ret (Some norvig_solution)"
proof -
  have l: "length norvig_given80 = 80" by (simp add: norvig_given80_def)
  have s: "rd norvig_solution 80 = Ret 2" by (simp add: rd_nth norvig_solution_def)
  have f: "fill 150 (Some norvig_solution) 80 4 = Ret (False, norvig_solution)"
    by (subst fuel_150, subst fill.simps) (simp add: s)
  show ?thesis
    unfolding initialize_def squares_split init_loop_append contradictory_puzzle_def init_given80
    by (simp add: rd_last [OF l] ALL_DIGITS_def f)
qed

lemma search_solution:
  "search 150 \<lparr>made = norvig_solution, gridpool = new_gridpool, backtracks = 0\<rparr> Made 0
     = Ret (Made, \<lparr>made = norvig_solution, gridpool = new_gridpool, backtracks = 0\<rparr>)"
  by (subst fuel_150, subst search.simps) (simp add: contents_def select_norvig_solution)

text \<open>
  Claim C9. The line of the scenario parses to \<open>norvig_puzzle\<close>; \<open>initialize\<close> and then
  \<open>search\<close> at level 0 return the grid made by \<open>initialize\<close>, which holds
  \<open>norvig_solution\<close>; this is the grid of the digits of the solution line, and
  \<open>verify\<close> accepts it against the puzzle.
\<close>

theorem solve_norvig:
  "parseGrid (runes norvig_line) = Ret (Inr norvig_puzzle) \<and>
   solve 150 norvig_puzzle
     = Ret (Made, \<lparr>made = norvig_solution, gridpool = new_gridpool, backtracks = 0\<rparr>) \<and>
   result_grid (Made, \<lparr>made = norvig_solution, gridpool = new_gridpool, backtracks = 0\<rparr>)
     = Some norvig_solution \<and>
   parseGrid (runes norvig_solution_line) = Ret (Inr norvig_solution) \<and>
   verify (Some norvig_solution) norvig_puzzle = Ret True"
proof -
  have a: "parseGrid (runes norvig_solution_line) = Ret (Inr norvig_solution)" by code_simp
  have b: "verify (Some norvig_solution) norvig_puzzle = Ret True" by code_simp
  have c: "solve 150 norvig_puzzle
     = Ret (Made, \<lparr>made = norvig_solution, gridpool = new_gridpool, backtracks = 0\<rparr>)"
    by (simp add: solve_def initialize_norvig search_solution)
  show ?thesis using parse_norvig_line a b c by (simp add: result_grid_def contents_def)
qed

text \<open>
  Claim C3, at a failing input. The line \<open>contradictory_line\<close> gives the digit 3 twice
  in its last row, in the squares 78 and 80. \<open>fill\<close> fails on the second of them, but
  \<open>initialize\<close> drops that answer and returns its grid, so that \<open>search\<close> returns a
  grid and not \<open>nil\<close>; the grid holds 2 where the puzzle gives 3, and \<open>verify\<close> rejects it.
\<close>

theorem solve_contradictory:
  "parseGrid (runes contradictory_line) = Ret (Inr contradictory_puzzle) \<and>
   contradictory_puzzle ! 78 = 4 \<and> contradictory_puzzle ! 80 = 4 \<and>
   solve 150 contradictory_puzzle
     = Ret (Made, \<lparr>made = norvig_solution, gridpool = new_gridpool, backtracks = 0\<rparr>) \<and>
   result_grid (Made, \<lparr>made = norvig_solution, gridpool = new_gridpool, backtracks = 0\<rparr>)
     = Some norvig_solution \<and>
   verify (Some norvig_solution) contradictory_puzzle = Ret False"
proof -
  have a: "parseGrid (runes contradictory_line) = Ret (Inr contradictory_puzzle)" by code_simp
  have b: "verify (Some norvig_solution) contradictory_puzzle = Ret False" by code_simp
  have c: "solve 150 contradictory_puzzle
     = Ret (Made, \<lparr>made = norvig_solution, gridpool = new_gridpool, backtracks = 0\<rparr>)"
    by (simp add: solve_def initialize_contradictory search_solution)
  have d: "contradictory_puzzle ! 78 = 4" "contradictory_puzzle ! 80 = 4"
    by (simp_all add: contradictory_puzzle_def norvig_given80_def)
  show ?thesis using a b c d by (simp add: result_grid_def contents_def)
qed

section \<open>Initialization after a failed fill\<close>

lemma squares_81: "[0 ..< length SQUARES] = [0 ..< 81]"
  by (simp add: SQUARES_def N_def)

lemma blank_grid_81: "replicate (N * N) ALL_DIGITS = replicate 81 511"
  by (simp add: N_def ALL_DIGITS_def)

lemma fill_twice_one_first:
  "fill 150 (Some (replicate 81 511)) 0 1 = Ret (True, twice_one_first)"
  by (simp only: twice_one_first_def replicate_numeral_run run_rules cong: run_congs)

lemma fill_twice_one_second:
  "fill 150 (Some twice_one_first) 1 1 = Ret (False, twice_one_first)"
  by (simp only: twice_one_first_def run_rules cong: run_congs)

lemma init_loop_twice_one:
  "init_loop 150 twice_one_puzzle (replicate 81 511) [0 ..< 81] = Ret twice_one_grid"
  by (simp only: twice_one_puzzle_def twice_one_grid_def upt_numeral replicate_numeral_run
      run_rules append.simps cong: run_congs)

text \<open>
  Claim C2. On \<open>twice_one_puzzle\<close> the first \<open>fill\<close> of \<open>initialize\<close>, at square 0,
  succeeds and the second, at square 1, fails. \<open>initialize\<close> drops that answer: it goes on
  to square 80, which was still blank after the first fill and holds the digit given for it
  at the end, and it returns its grid, not \<open>nil\<close>. The comment of \<open>initialize\<close> says that
  the grid it returns can be \<open>nil\<close>, and \<open>fill\<close> sets its own \<open>grid\<close> to \<open>nil\<close> before it
  returns \<open>nil\<close> and answers \<open>nil\<close> at once when it is given \<open>nil\<close>: neither has an effect in
  \<open>initialize\<close>, where the result of \<open>fill\<close> is not assigned.
\<close>

theorem initialize_ignores_failure:
  "fill 150 (Some (replicate 81 511)) 0 1 = Ret (True, twice_one_first) \<and>
   fill 150 (Some twice_one_first) 1 1 = Ret (False, twice_one_first) \<and>
   twice_one_first ! 80 = 511 \<and>
   initialize 150 twice_one_puzzle = Ret (Some twice_one_grid) \<and>
   twice_one_grid ! 80 = 2"
proof -
  have "initialize 150 twice_one_puzzle = Ret (Some twice_one_grid)"
    unfolding initialize_def squares_81 blank_grid_81 init_loop_twice_one by simp
  moreover have "twice_one_first ! 80 = 511" by (simp add: twice_one_first_def)
  moreover have "twice_one_grid ! 80 = 2" by (simp add: twice_one_grid_def)
  ultimately show ?thesis using fill_twice_one_first fill_twice_one_second by simp
qed

section \<open>The depth of the search\<close>

lemma OnesCount_pos: "0 < v \<Longrightarrow> OnesCount v = v mod 2 + OnesCount (v div 2)"
  by (subst OnesCount.simps) simp

lemma OnesCount_nonpos: "v \<le> 0 \<Longrightarrow> OnesCount v = 0"
  by (subst OnesCount.simps) simp

lemma OnesCount_remove_bit:
  "0 \<le> v \<Longrightarrow> bit v k \<Longrightarrow> 0 \<le> v - 2 ^ k \<and> OnesCount (v - 2 ^ k) = OnesCount v - 1"
proof (induction k arbitrary: v)
  case 0
  then have o: "odd v" by (simp add: bit_0)
  with 0 have pos: "0 < v" by (cases "v = 0") auto
  have m: "v mod 2 = 1" using o by (simp add: odd_iff_mod_2_eq_one)
  have d: "(v - 1) div 2 = v div 2" using o by (auto elim!: oddE)
  have m1: "(v - 1) mod 2 = 0" using o by simp
  show ?case
  proof (cases "v = 1")
    case True
    then show ?thesis by (simp add: OnesCount_pos OnesCount_nonpos)
  next
    case False
    with pos have "0 < v - 1" by simp
    then show ?thesis using pos m d m1 by (simp add: OnesCount_pos)
  qed
next
  case (Suc k)
  then have b: "bit (v div 2) k" by (simp add: bit_Suc)
  from Suc.prems have h: "0 \<le> v div 2" by simp
  from Suc.IH [OF h b] have ih: "0 \<le> v div 2 - 2 ^ k" "OnesCount (v div 2 - 2 ^ k) = OnesCount (v div 2) - 1"
    by auto
  have ge: "2 * 2 ^ k \<le> v" using ih(1) by linarith
  have "(0::int) < 2 * 2 ^ k" by simp
  with ge have pos: "0 < v" by linarith
  have "(v + 2 * (- (2 ^ k))) div 2 = - (2 ^ k) + v div 2" by (simp only: div_mult_self4)
  then have d: "(v - 2 * 2 ^ k) div 2 = v div 2 - 2 ^ k" by simp
  have m: "(v - 2 * 2 ^ k) mod 2 = v mod 2" by presburger
  show ?case
  proof (cases "v - 2 * 2 ^ k = 0")
    case True
    then have "v mod 2 = 0" "v div 2 - 2 ^ k = 0" using m d by auto
    then show ?thesis using True ih(2) pos by (simp add: OnesCount_pos OnesCount_nonpos)
  next
    case False
    with ge have "0 < v - 2 * 2 ^ k" by simp
    then show ?thesis using pos d m ih ge by (simp add: OnesCount_pos)
  qed
qed

lemma OnesCount_positive: "0 < v \<Longrightarrow> 1 \<le> OnesCount v"
proof (induction v rule: OnesCount.induct)
  case (1 v)
  show ?case
  proof (cases "odd v")
    case True
    then have "v mod 2 = 1" by (simp add: odd_iff_mod_2_eq_one)
    then show ?thesis using 1(2) OnesCount_nonneg [of "v div 2"] by (simp add: OnesCount_pos)
  next
    case False
    with 1(2) have "0 < v div 2" by (auto elim!: evenE)
    with 1 have "1 \<le> OnesCount (v div 2)" by simp
    then show ?thesis using 1(2) False by (simp add: OnesCount_pos)
  qed
qed

lemma digit_power: "d \<in> set DIGITS \<Longrightarrow> \<exists>k<9. d = 2 ^ k"
proof -
  assume "d \<in> set DIGITS"
  then have "d \<in> {1, 2, 4, 8, 16, 32, 64, 128, 256}"
    by (simp add: DIGITS_def)
  then have "d \<in> (\<lambda>k. 2 ^ k) ` {0, 1, 2, 3, 4, 5, 6, 7, 8::nat}"
    by (simp add: image_def)
  then show ?thesis by (elim imageE) (auto intro!: exI)
qed

lemma OnesCount_power: "OnesCount (2 ^ k) = 1"
proof -
  have "bit (2 ^ k :: int) k" by (simp add: bit_exp_iff)
  from OnesCount_remove_bit [OF _ this] show ?thesis by (simp add: OnesCount_nonpos)
qed

lemma digit_facts:
  assumes "d \<in> set DIGITS"
  shows "0 < d" "d \<le> 511" "OnesCount d = 1"
proof -
  from digit_power [OF assms] obtain k where k: "k < 9" "d = 2 ^ k" by auto
  show "0 < d" using k by simp
  show "OnesCount d = 1" using k by (simp add: OnesCount_power)
  have "(2::int) ^ k \<le> 2 ^ 8" using k by (intro power_increasing) auto
  then show "d \<le> 511" using k by simp
qed

lemma remove_digit:
  assumes "0 \<le> v" "d \<in> set DIGITS" "v AND d \<noteq> 0"
  shows "0 \<le> v - d" "v - d \<le> v" "OnesCount (v - d) = OnesCount v - 1"
proof -
  from digit_power [OF assms(2)] obtain k where k: "k < 9" "d = 2 ^ k" by auto
  with assms(3) have b: "bit v k" by (simp add: and_exp_eq_0_iff_not_bit)
  from OnesCount_remove_bit [OF assms(1) b] k
  show "0 \<le> v - d" "OnesCount (v - d) = OnesCount v - 1" by auto
  show "v - d \<le> v" using k by simp
qed

lemma shrinks_refl: "shrinks g g"
  by (simp add: shrinks_def)

lemma keeps_refl: "keeps g g"
  by (simp add: keeps_def)

lemma shrinks_trans: "shrinks g g1 \<Longrightarrow> shrinks g1 g2 \<Longrightarrow> shrinks g g2"
  unfolding shrinks_def by (meson order_trans)

lemma keeps_trans: "keeps g g1 \<Longrightarrow> keeps g1 g2 \<Longrightarrow> keeps g g2"
  unfolding keeps_def by blast

lemma step_ok_Ret: "wf_grid g \<Longrightarrow> step_ok g (Ret (ok, g))"
  by (simp add: step_ok_def shrinks_refl keeps_refl)

lemma step_ok_Diverge: "step_ok g Diverge"
  by (simp add: step_ok_def)

lemma step_ok_after:
  assumes "shrinks g g1" "step_ok g1 r" "succeeded r \<longrightarrow> keeps g g1"
  shows "step_ok g r"
proof (cases r)
  case (Ret x)
  obtain ok g' where x: "x = (ok, g')" by (cases x)
  from assms(2) Ret x have a: "wf_grid g'" "shrinks g1 g'" "ok \<longrightarrow> keeps g1 g'"
    by (auto simp: step_ok_def)
  from assms(3) Ret x have b: "ok \<longrightarrow> keeps g g1" by (simp add: succeeded_def)
  show ?thesis
    using a b shrinks_trans [OF assms(1) a(2)] keeps_trans [of g g1 g']
    by (auto simp: step_ok_def Ret x)
qed (use assms in \<open>auto simp: step_ok_def\<close>)

text \<open>A step, and then a second one only when the first succeeded.\<close>

lemma step_ok_then:
  assumes "step_ok g r1"
    and "\<And>g1. r1 = Ret (True, g1) \<Longrightarrow> wf_grid g1 \<Longrightarrow> step_ok g1 (k g1)"
  shows "step_ok g (case r1 of Ret (ok, g1) \<Rightarrow> if \<not> ok then Ret (False, g1) else k g1
                     | Panic \<Rightarrow> Panic | Diverge \<Rightarrow> Diverge)"
proof (cases r1)
  case (Ret x)
  obtain ok g1 where x: "x = (ok, g1)" by (cases x)
  from assms(1) Ret x have a: "wf_grid g1" "shrinks g g1" "ok \<longrightarrow> keeps g g1"
    by (auto simp: step_ok_def)
  show ?thesis
  proof (cases ok)
    case True
    from assms(2) [of g1] Ret x True a(1) have "step_ok g1 (k g1)" by simp
    from step_ok_after [OF a(2) this] a(3) True show ?thesis by (simp add: Ret x)
  next
    case False
    then show ?thesis using a by (simp add: Ret x step_ok_def)
  qed
qed (use assms(1) in \<open>auto simp: step_ok_def\<close>)

lemma wf_grid_nth: "wf_grid g \<Longrightarrow> i < 81 \<Longrightarrow> 0 \<le> g ! i \<and> g ! i \<le> 511"
  by (auto simp: wf_grid_def ALL_DIGITS_def)

lemma wf_grid_rd: "wf_grid g \<Longrightarrow> i < 81 \<Longrightarrow> rd g i = Ret (g ! i)"
  by (simp add: rd_nth wf_grid_def)

lemma wf_grid_update:
  "wf_grid g \<Longrightarrow> 0 \<le> v \<Longrightarrow> v \<le> 511 \<Longrightarrow> wf_grid (g[i := v])"
  by (auto simp: wf_grid_def ALL_DIGITS_def dest!: set_update_subset_insert [THEN subsetD])

lemma nth_update_if: "xs[i := v] ! j = (if i = j \<and> i < length xs then v else xs ! j)"
  by (cases "i < length xs") (auto simp: nth_list_update list_update_beyond)

lemma shrinks_update:
  "i < 81 \<Longrightarrow> OnesCount v \<le> OnesCount (g ! i) \<Longrightarrow> shrinks g (g[i := v])"
  by (auto simp: shrinks_def nth_update_if)

lemma keeps_update: "v \<noteq> 0 \<Longrightarrow> keeps g (g[i := v])"
  by (auto simp: keeps_def nth_update_if)

lemma PEERS_range: "length PEERS = 81 \<and> list_all (list_all (\<lambda>p. p < 81)) PEERS"
  by code_simp

lemma UNITS_range: "length UNITS = 81 \<and> list_all (list_all (list_all (\<lambda>p. p < 81))) UNITS"
  by code_simp

lemma rd_PEERS_range:
  assumes "s < 81"
  shows "rd PEERS s = Ret (PEERS ! s)" "\<forall>p\<in>set (PEERS ! s). p < 81"
proof -
  show "rd PEERS s = Ret (PEERS ! s)" using assms PEERS_range by (simp add: rd_nth)
  have "PEERS ! s \<in> set PEERS" using assms PEERS_range by simp
  then show "\<forall>p\<in>set (PEERS ! s). p < 81"
    using PEERS_range by (auto simp: list_all_iff)
qed

lemma rd_UNITS_range:
  assumes "s < 81"
  shows "rd UNITS s = Ret (UNITS ! s)" "\<forall>u\<in>set (UNITS ! s). \<forall>p\<in>set u. p < 81"
proof -
  show "rd UNITS s = Ret (UNITS ! s)" using assms UNITS_range by (simp add: rd_nth)
  have "UNITS ! s \<in> set UNITS" using assms UNITS_range by simp
  then show "\<forall>u\<in>set (UNITS ! s). \<forall>p\<in>set u. p < 81"
    using UNITS_range by (auto simp: list_all_iff)
qed

lemma OnesCount_zero: "0 \<le> v \<Longrightarrow> OnesCount v = 0 \<Longrightarrow> v = 0"
  using OnesCount_positive [of v] by (cases "v = 0") auto

lemma OnesCount_one_power: "0 \<le> v \<Longrightarrow> OnesCount v = 1 \<Longrightarrow> \<exists>k. v = 2 ^ k"
proof (induction v rule: OnesCount.induct)
  case (1 v)
  from 1(3) have pos: "0 < v" by (cases "v \<le> 0") (auto simp: OnesCount_nonpos)
  then have c: "v mod 2 + OnesCount (v div 2) = 1" using 1(3) by (simp add: OnesCount_pos)
  have h: "0 \<le> v div 2" using pos by simp
  show ?case
  proof (cases "odd v")
    case True
    then have "v mod 2 = 1" by (simp add: odd_iff_mod_2_eq_one)
    with c have "OnesCount (v div 2) = 0" by simp
    from OnesCount_zero [OF h this] True have "v = 1" by (auto elim!: oddE)
    then have "v = 2 ^ 0" by simp
    then show ?thesis by blast
  next
    case False
    then have "v mod 2 = 0" by simp
    with c have "OnesCount (v div 2) = 1" by simp
    with 1(1) pos h obtain k where "v div 2 = 2 ^ k" by auto
    with False have "v = 2 ^ Suc k" by (auto elim!: evenE)
    then show ?thesis by blast
  qed
qed

lemma power_digit: "k < 9 \<Longrightarrow> (2::int) ^ k \<in> set DIGITS"
proof -
  assume "k < 9"
  then have "k \<in> {0, 1, 2, 3, 4, 5, 6, 7, 8}" by auto
  then show ?thesis by (auto simp: DIGITS_def)
qed

lemma single_bit_digit:
  assumes "0 \<le> v" "v \<le> 511" "OnesCount v = 1"
  shows "v \<in> set DIGITS"
proof -
  from OnesCount_one_power [OF assms(1,3)] obtain k where k: "v = 2 ^ k" by auto
  have "k < 9"
  proof (rule ccontr)
    assume "\<not> k < 9"
    then have "(2::int) ^ 9 \<le> 2 ^ k" by (intro power_increasing) auto
    with assms(2) k show False by simp
  qed
  then show ?thesis using k power_digit by simp
qed

lemma dplaces_more:
  assumes "wf_grid g" "\<forall>p\<in>set u. p < 81" "1 \<le> c"
  shows "dplaces g d u c p = Ret (c, p) \<or> dplaces g d u c p = Ret (c + 1, p)"
  using assms(2)
proof (induction u)
  case Nil
  then show ?case by simp
next
  case (Cons s2 u)
  then have "rd g s2 = Ret (g ! s2)" using assms(1) by (simp add: wf_grid_rd)
  then show ?case using Cons assms(3) by auto
qed

lemma dplaces_first:
  assumes "wf_grid g" "\<forall>p\<in>set u. p < 81"
  shows "\<exists>c p'. dplaces g d u 0 p = Ret (c, p') \<and> (c = 0 \<or> (\<exists>s2\<in>set u. p' = int s2))"
  using assms(2)
proof (induction u)
  case Nil
  then show ?case by simp
next
  case (Cons s2 u)
  then have r: "rd g s2 = Ret (g ! s2)" using assms(1) by (simp add: wf_grid_rd)
  show ?case
  proof (cases "g ! s2 AND d > 0")
    case True
    from Cons.prems have "\<forall>p\<in>set u. p < 81" by simp
    from dplaces_more [OF assms(1) this, of 1 d "int s2"]
    show ?thesis using r True by auto
  next
    case False
    then show ?thesis using r Cons by auto
  qed
qed

lemma step_ok_seq:
  assumes "step_ok g r1"
    and "\<And>g1. r1 = Ret (True, g1) \<Longrightarrow> wf_grid g1 \<Longrightarrow> step_ok g1 (k g1)"
    and "r = (case r1 of Ret (ok, g1) \<Rightarrow> if ok then k g1 else Ret (False, g1)
              | Panic \<Rightarrow> Panic | Diverge \<Rightarrow> Diverge)"
  shows "step_ok g r"
proof -
  have "r = (case r1 of Ret (ok, g1) \<Rightarrow> if \<not> ok then Ret (False, g1) else k g1
              | Panic \<Rightarrow> Panic | Diverge \<Rightarrow> Diverge)"
    unfolding assms(3) by (auto split: res.splits)
  then show ?thesis using step_ok_then [OF assms(1,2)] by simp
qed

lemma succeeded_seq:
  "succeeded (case r1 of Ret (ok, g1) \<Rightarrow> if ok then k g1 else Ret (False, g1)
              | Panic \<Rightarrow> Panic | Diverge \<Rightarrow> Diverge) \<Longrightarrow> succeeded r1"
  by (auto simp: succeeded_def split: res.splits if_splits)

lemma fill_peers_ok:
  assumes "elim_ok n" "d \<in> set DIGITS"
  shows "wf_grid g \<Longrightarrow> \<forall>p\<in>set ps. p < 81 \<Longrightarrow> step_ok g (fill_peers n g ps d)"
proof (induction ps arbitrary: g)
  case Nil
  then show ?case by (simp add: step_ok_Ret)
next
  case (Cons p ps)
  have a: "step_ok g (eliminate n g p d)"
    using assms Cons.prems by (simp add: elim_ok_def)
  show ?case
    by (rule step_ok_seq [OF a, where k = "\<lambda>g1. fill_peers n g1 ps d"])
       (use Cons in \<open>auto split: res.splits\<close>)
qed

lemma dual_units_ok:
  assumes "fill_ok n" "d \<in> set DIGITS"
  shows "wf_grid g \<Longrightarrow> \<forall>u\<in>set us. \<forall>p\<in>set u. p < 81 \<Longrightarrow> step_ok g (dual_units n g us d)"
proof (induction us arbitrary: g)
  case Nil
  then show ?case by (simp add: step_ok_Ret)
next
  case (Cons u us)
  from Cons.prems have u: "\<forall>p\<in>set u. p < 81" by simp
  from dplaces_first [OF Cons.prems(1) u, of d "- 1"]
  obtain c p' where dp: "dplaces g d u 0 (- 1) = Ret (c, p')"
    and cp: "c = 0 \<or> (\<exists>s2\<in>set u. p' = int s2)" by auto
  consider (none) "c = 0" | (one) "c = 1" | (more) "c \<noteq> 0" "c \<noteq> 1" by auto
  then show ?case
  proof cases
    case none
    then show ?thesis using dp Cons.prems(1) by (simp add: step_ok_Ret)
  next
    case one
    with cp obtain s2 where s2: "s2 \<in> set u" "p' = int s2" by auto
    then have lt: "s2 < 81" using u by simp
    have a: "step_ok g (fill n (Some g) s2 d)"
      using assms Cons.prems(1) lt by (simp add: fill_ok_def)
    have "step_ok g (case fill n (Some g) s2 d of
        Ret (ok, g1) \<Rightarrow> if \<not> ok then Ret (False, g1) else dual_units n g1 us d
      | Panic \<Rightarrow> Panic | Diverge \<Rightarrow> Diverge)"
      by (rule step_ok_then [OF a]) (use Cons in auto)
    then show ?thesis using dp one s2 by simp
  next
    case more
    then show ?thesis using dp Cons by simp
  qed
qed

lemma fill_Suc_ok:
  assumes "elim_ok n"
  shows "fill_ok (Suc n)"
  unfolding fill_ok_def
proof (intro allI impI)
  fix g :: "int list" and s :: nat and d :: int
  assume wf: "wf_grid g" and s: "s < 81" and d: "d \<in> set DIGITS"
  note v = wf_grid_nth [OF wf s]
  note df = digit_facts [OF d]
  show "step_ok g (fill (Suc n) (Some g) s d)"
  proof (cases "g ! s AND d = 0")
    case True
    then show ?thesis using wf s by (simp add: wf_grid_rd step_ok_Ret)
  next
    case False
    then have "g ! s \<noteq> 0" by auto
    with v have "0 < g ! s" by simp
    then have c: "OnesCount d \<le> OnesCount (g ! s)"
      using OnesCount_positive [of "g ! s"] df(3) by simp
    have wf1: "wf_grid (g[s := d])" using wf df by (simp add: wf_grid_update)
    have a: "step_ok (g[s := d]) (fill_peers n (g[s := d]) (PEERS ! s) d)"
      using fill_peers_ok [OF assms d wf1] rd_PEERS_range(2) [OF s] by simp
    have k: "keeps g (g[s := d])" using df(1) by (simp add: keeps_update)
    have "step_ok g (fill_peers n (g[s := d]) (PEERS ! s) d)"
      by (rule step_ok_after [OF shrinks_update [OF s c] a]) (simp add: k)
    then show ?thesis using False wf s rd_PEERS_range(1) [OF s] by (simp add: wf_grid_rd)
  qed
qed

lemma elim_Suc_ok:
  assumes "arc_ok n" "dual_ok n"
  shows "elim_ok (Suc n)"
  unfolding elim_ok_def
proof (intro allI impI)
  fix g :: "int list" and s :: nat and d :: int
  assume wf: "wf_grid g" and s: "s < 81" and d: "d \<in> set DIGITS"
  note v = wf_grid_nth [OF wf s]
  show "step_ok g (eliminate (Suc n) g s d)"
  proof (cases "g ! s AND d = 0")
    case True
    then show ?thesis using wf s by (simp add: wf_grid_rd step_ok_Ret)
  next
    case False
    note rm = remove_digit [OF _ d False]
    let ?g1 = "g[s := g ! s - d]"
    let ?r = "case arcConsistent n ?g1 s of
        Ret (ok, g') \<Rightarrow> if ok then dualConsistent n g' s d else Ret (False, g')
      | Panic \<Rightarrow> Panic | Diverge \<Rightarrow> Diverge"
    have wf1: "wf_grid ?g1" using wf v rm by (simp add: wf_grid_update)
    have sh: "shrinks g ?g1" using rm v by (intro shrinks_update [OF s]) simp
    have arc: "step_ok ?g1 (arcConsistent n ?g1 s)"
      "?g1 ! s = 0 \<longrightarrow> \<not> succeeded (arcConsistent n ?g1 s)"
      using assms(1) wf1 s by (auto simp: arc_ok_def)
    have a: "step_ok ?g1 ?r"
      by (rule step_ok_seq [OF arc(1), where k = "\<lambda>g'. dualConsistent n g' s d"])
         (use assms(2) s d in \<open>auto simp: dual_ok_def\<close>)
    have "succeeded ?r \<longrightarrow> keeps g ?g1"
    proof
      assume "succeeded ?r"
      then have "succeeded (arcConsistent n ?g1 s)" by (rule succeeded_seq)
      with arc(2) have "?g1 ! s \<noteq> 0" by blast
      then have "g ! s - d \<noteq> 0" using wf s by (simp add: wf_grid_def)
      then show "keeps g ?g1" by (rule keeps_update)
    qed
    with sh a have "step_ok g ?r" by (rule step_ok_after)
    then show ?thesis using False wf s by (simp add: wf_grid_rd)
  qed
qed

lemma arc_Suc_ok:
  assumes "fill_ok n"
  shows "arc_ok (Suc n)"
  unfolding arc_ok_def
proof (intro allI impI)
  fix g :: "int list" and s :: nat
  assume wf: "wf_grid g" and s: "s < 81"
  note v = wf_grid_nth [OF wf s]
  have nd: "NUM_DIGITS (g ! s) = Ret (OnesCount (g ! s))"
    using v by (simp add: NUM_DIGITS_def ALL_DIGITS_def)
  have r: "rd g s = Ret (g ! s)" using wf s by (rule wf_grid_rd)
  consider (many) "2 \<le> OnesCount (g ! s)" | (one) "OnesCount (g ! s) = 1"
    | (none) "\<not> 2 \<le> OnesCount (g ! s)" "OnesCount (g ! s) \<noteq> 1" by auto
  then show "step_ok g (arcConsistent (Suc n) g s) \<and>
      (g ! s = 0 \<longrightarrow> \<not> succeeded (arcConsistent (Suc n) g s))"
  proof cases
    case many
    then have "g ! s \<noteq> 0" by (auto simp: OnesCount_nonpos)
    then show ?thesis using many nd r wf by (simp add: step_ok_Ret)
  next
    case one
    then have nz: "g ! s \<noteq> 0" by (auto simp: OnesCount_nonpos)
    have "g ! s \<in> set DIGITS" using v one by (intro single_bit_digit) auto
    then have "step_ok g (fill n (Some g) s (g ! s))"
      using assms wf s by (simp add: fill_ok_def)
    then show ?thesis using one nd r nz by simp
  next
    case none
    then have "arcConsistent (Suc n) g s = Ret (False, g)" using nd r by simp
    then show ?thesis using wf by (simp add: step_ok_Ret succeeded_def)
  qed
qed

lemma dual_Suc_ok:
  assumes "fill_ok n"
  shows "dual_ok (Suc n)"
  unfolding dual_ok_def
  using dual_units_ok [OF assms] rd_UNITS_range by simp

lemma all_ok: "fill_ok n \<and> elim_ok n \<and> arc_ok n \<and> dual_ok n"
proof (induction n)
  case 0
  show ?case
    by (simp add: fill_ok_def elim_ok_def arc_ok_def dual_ok_def step_ok_Diverge succeeded_def)
next
  case (Suc n)
  then show ?case
    using fill_Suc_ok elim_Suc_ok arc_Suc_ok dual_Suc_ok by blast
qed

lemma fill_step_ok:
  "wf_grid g \<Longrightarrow> s < 81 \<Longrightarrow> d \<in> set DIGITS \<Longrightarrow> step_ok g (fill n (Some g) s d)"
  using all_ok [of n] by (simp add: fill_ok_def)

lemma determined_card:
  "length g = 81 \<Longrightarrow> determined g = card {i. i < 81 \<and> OnesCount (g ! i) = 1}"
  by (simp add: determined_def length_filter_conv_card)

lemma determined_le:
  assumes "wf_grid g" "s < 81" "OnesCount (g ! s) \<noteq> 1"
  shows "determined g \<le> 80"
proof -
  have "{i. i < 81 \<and> OnesCount (g ! i) = 1} \<subseteq> {..<81} - {s}" using assms(3) by auto
  then have "card {i. i < 81 \<and> OnesCount (g ! i) = 1} \<le> card ({..<81::nat} - {s})"
    by (intro card_mono) auto
  then show ?thesis using assms(1,2) by (simp add: determined_card wf_grid_def)
qed

lemma determined_less:
  assumes "length g = 81" "length g' = 81" "s < 81"
    and "OnesCount (g ! s) \<noteq> 1" "OnesCount (g' ! s) = 1"
    and "\<forall>i<81. OnesCount (g ! i) = 1 \<longrightarrow> OnesCount (g' ! i) = 1"
  shows "determined g < determined g'"
proof -
  have "{i. i < 81 \<and> OnesCount (g ! i) = 1} \<subset> {i. i < 81 \<and> OnesCount (g' ! i) = 1}"
    using assms(3-6) by auto
  then have "card {i. i < 81 \<and> OnesCount (g ! i) = 1} < card {i. i < 81 \<and> OnesCount (g' ! i) = 1}"
    by (intro psubset_card_mono) auto
  then show ?thesis using assms(1,2) by (simp add: determined_card)
qed

lemma one_stays_one:
  assumes "wf_grid g'" "shrinks g g'" "keeps g g'" "i < 81" "OnesCount (g ! i) = 1"
  shows "OnesCount (g' ! i) = 1"
proof -
  from assms(5) have "g ! i \<noteq> 0" by (auto simp: OnesCount_nonpos)
  with assms(3,4) have nz: "g' ! i \<noteq> 0" by (simp add: keeps_def)
  from wf_grid_nth [OF assms(1,4)] nz have "0 < g' ! i" by simp
  then have "1 \<le> OnesCount (g' ! i)" by (rule OnesCount_positive)
  moreover from assms(2,4,5) have "OnesCount (g' ! i) \<le> 1" by (auto simp: shrinks_def)
  ultimately show ?thesis by simp
qed

lemma fill_determines:
  assumes wf: "wf_grid g" and s: "s < 81" and d: "d \<in> set DIGITS"
    and c: "OnesCount (g ! s) \<noteq> 1" and f: "fill n (Some g) s d = Ret (True, g')"
  shows "wf_grid g' \<and> determined g < determined g'"
proof -
  from f obtain m where n: "n = Suc m" by (cases n) auto
  note df = digit_facts [OF d]
  from f n wf s have nz: "g ! s AND d \<noteq> 0" by (auto simp: wf_grid_rd split: if_splits)
  with f n wf s rd_PEERS_range(1) [OF s]
  have fp: "fill_peers m (g[s := d]) (PEERS ! s) d = Ret (True, g')"
    by (simp add: wf_grid_rd)
  have wf1: "wf_grid (g[s := d])" using wf df by (simp add: wf_grid_update)
  from all_ok [of m] have "elim_ok m" by simp
  from fill_peers_ok [OF this d wf1 rd_PEERS_range(2) [OF s]]
  have "step_ok (g[s := d]) (Ret (True, g'))" by (simp only: fp)
  then have a: "wf_grid g'" "shrinks (g[s := d]) g'" "keeps (g[s := d]) g'"
    by (auto simp: step_ok_def)
  have ls: "s < length g" using wf s by (simp add: wf_grid_def)
  have "OnesCount ((g[s := d]) ! s) = 1" using ls df by simp
  from one_stays_one [OF a s this] have s1: "OnesCount (g' ! s) = 1" .
  have "\<forall>i<81. OnesCount (g ! i) = 1 \<longrightarrow> OnesCount (g' ! i) = 1"
  proof (intro allI impI)
    fix i :: nat
    assume i: "i < 81" and o: "OnesCount (g ! i) = 1"
    with c have "i \<noteq> s" by auto
    then have "OnesCount ((g[s := d]) ! i) = 1" using o by simp
    from one_stays_one [OF a i this] show "OnesCount (g' ! i) = 1" .
  qed
  from determined_less [OF _ _ s c s1 this] wf a(1) show ?thesis by (simp add: wf_grid_def)
qed

lemma copy_into_same: "length dst = length src \<Longrightarrow> copy_into dst src = src"
  by (simp add: copy_into_def)

lemma search_ok_after:
  assumes "made st1 = made st" "\<forall>k<level. gridpool st1 ! k = gridpool st ! k"
    "search_ok level st1 r"
  shows "search_ok level st r"
  using assms by (auto simp: search_ok_def split: res.splits)

lemma contents_frame:
  assumes "grid = Made \<or> (\<exists>k<level. grid = Slot k)"
    "made st' = made st" "\<forall>k<level. gridpool st' ! k = gridpool st ! k"
  shows "contents st' grid = contents st grid"
  using assms by (auto simp: contents_def)

lemma search_digits_safe:
  assumes S: "search_safe n"
  shows "pool_ok st \<Longrightarrow> grid_ok st grid level \<Longrightarrow> s < 81 \<Longrightarrow>
         OnesCount (contents st grid ! s) \<noteq> 1 \<Longrightarrow> set ds \<subseteq> set DIGITS \<Longrightarrow>
         search_ok level st (search_digits n st grid s level ds)"
proof (induction ds arbitrary: st)
  case Nil
  then show ?case by (simp add: search_ok_def)
next
  case (Cons d ds)
  let ?g = "contents st grid"
  from Cons.prems have wf: "wf_grid ?g" and lv: "level \<le> determined ?g"
    and ref: "grid = Made \<or> (\<exists>k<level. grid = Slot k)" by (auto simp: grid_ok_def)
  have r: "rd ?g s = Ret (?g ! s)" using wf Cons.prems(3) by (rule wf_grid_rd)
  from Cons.prems have ds: "set ds \<subseteq> set DIGITS" and d: "d \<in> set DIGITS" by auto
  show ?case
  proof (cases "d AND ?g ! s > 0")
    case False
    then show ?thesis using r Cons.IH [OF Cons.prems(1-4) ds] by simp
  next
    case True
    then have nz: "?g ! s AND d \<noteq> 0" by (simp add: and.commute)
    from determined_le [OF wf Cons.prems(3,4)] lv have l81: "level < 81" by simp
    let ?slot = "gridpool st ! level"
    have pr: "rd (gridpool st) level = Ret ?slot"
      using Cons.prems(1) l81 by (simp add: rd_nth pool_ok_def)
    have "length ?slot = 81" using Cons.prems(1) l81 by (simp add: pool_ok_def)
    then have cp: "copy_into ?slot ?g = ?g" using wf by (simp add: copy_into_same wf_grid_def)
    have fo: "step_ok ?g (fill n (Some ?g) s d)" using wf Cons.prems(3) d by (rule fill_step_ok)
    show ?thesis
    proof (cases "fill n (Some ?g) s d")
      case Diverge
      then show ?thesis using r True pr cp by (simp add: search_ok_def)
    next
      case Panic
      then show ?thesis using fo by (simp add: step_ok_def)
    next
      case (Ret x)
      obtain ok g' where x: "x = (ok, g')" by (cases x)
      from fo Ret x have wf': "wf_grid g'" by (simp add: step_ok_def)
      let ?st2 = "st\<lparr>gridpool := (gridpool st)[level := g']\<rparr>"
      let ?next = "if ok then Slot level else NilGrid"
      have p2: "pool_ok ?st2"
        using Cons.prems(1) wf'
        by (auto simp: pool_ok_def wf_grid_def dest!: set_update_subset_insert [THEN subsetD])
      have c2: "contents ?st2 (Slot level) = g'"
        using Cons.prems(1) l81 by (simp add: contents_def pool_ok_def)
      have g2: "?next = NilGrid \<or> grid_ok ?st2 ?next (level + 1)"
      proof (cases ok)
        case True
        from fill_determines [OF wf Cons.prems(3) d Cons.prems(4)] Ret x True
        have "determined ?g < determined g'" by simp
        with lv have "level + 1 \<le> determined g'" by simp
        then show ?thesis using True wf' c2 by (simp add: grid_ok_def)
      next
        case False
        then show ?thesis by simp
      qed
      have so: "search_ok (level + 1) ?st2 (search n ?st2 ?next (level + 1))"
        by (rule S [unfolded search_safe_def, rule_format, OF p2 g2])
      show ?thesis
      proof (cases "search n ?st2 ?next (level + 1)")
        case Diverge
        then show ?thesis using r True pr cp Ret x by simp (simp add: search_ok_def)
      next
        case Panic
        then show ?thesis using so by (simp add: search_ok_def)
      next
        case inner: (Ret y)
        obtain result st' where y: "y = (result, st')" by (cases y)
        from so inner y have fr: "pool_ok st'" "made st' = made st"
          "\<forall>k<level. gridpool st' ! k = gridpool st ! k"
          by (auto simp: search_ok_def)
        show ?thesis
        proof (cases "result = NilGrid")
          case False
          then show ?thesis
            using r True pr cp Ret x inner y fr by simp (simp add: search_ok_def)
        next
          case nil: True
          let ?st3 = "st'\<lparr>backtracks := backtracks st' + 1\<rparr>"
          have m3: "made ?st3 = made st" "\<forall>k<level. gridpool ?st3 ! k = gridpool st ! k"
            using fr by auto
          have c3: "contents ?st3 grid = ?g" by (rule contents_frame [OF ref m3])
          have p3: "pool_ok ?st3" using fr(1) by (simp add: pool_ok_def)
          have g3: "grid_ok ?st3 grid level"
            using Cons.prems(2) c3 by (simp add: grid_ok_def)
          have "OnesCount (contents ?st3 grid ! s) \<noteq> 1" using Cons.prems(4) c3 by simp
          from Cons.IH [OF p3 g3 Cons.prems(3) this ds]
          have "search_ok level ?st3 (search_digits n ?st3 grid s level ds)" .
          from search_ok_after [OF m3 this]
          show ?thesis using r True pr cp Ret x inner y nil by simp
        qed
      qed
    qed
  qed
qed

lemma fewest_first_unfilled:
  assumes "fewest_first g r" "r \<noteq> - 1"
  shows "0 \<le> r" "nat r < 81" "OnesCount (g ! nat r) \<noteq> 1"
  using assms by (auto simp: fewest_first_def candidates_def split: if_splits)

lemma search_Suc_safe:
  assumes "search_safe n"
  shows "search_safe (Suc n)"
  unfolding search_safe_def
proof (intro allI impI)
  fix st :: store and grid :: gref and level :: nat
  assume p: "pool_ok st" and g: "grid = NilGrid \<or> grid_ok st grid level"
  show "search_ok level st (search (Suc n) st grid level)"
  proof (cases "grid = NilGrid")
    case True
    then show ?thesis using p by (simp add: search_ok_def)
  next
    case False
    with g have go: "grid_ok st grid level" by simp
    then have wf: "wf_grid (contents st grid)" by (simp add: grid_ok_def)
    then obtain r where sel: "selectSquare (contents st grid) = Ret r"
      and ff: "fewest_first (contents st grid) r"
      using selectSquare_fewest_first [of "contents st grid"] by (auto simp: wf_grid_def)
    have eq: "search (Suc n) st grid level =
        (if r = - 1 then Ret (grid, st)
         else if r < 0 then Panic
         else search_digits n st grid (nat r) level DIGITS)"
      using False sel by (cases grid) simp_all
    show ?thesis
    proof (cases "r = - 1")
      case True
      then show ?thesis using eq p by (simp add: search_ok_def)
    next
      case False
      note u = fewest_first_unfilled [OF ff False]
      from search_digits_safe [OF assms p go u(2,3), of DIGITS]
      show ?thesis using eq False u(1) by simp
    qed
  qed
qed

lemma search_safe: "search_safe n"
proof (induction n)
  case 0
  show ?case by (simp add: search_safe_def search_ok_def)
next
  case (Suc n)
  then show ?case by (rule search_Suc_safe)
qed

lemma determined_max: "determined g \<le> length g"
  by (simp add: determined_def)

lemma search_full:
  assumes "pool_ok st" "grid_ok st grid 81"
  shows "search (Suc n) st grid 81 = Ret (grid, st)"
proof -
  from assms(2) have wf: "wf_grid (contents st grid)" and d: "81 \<le> determined (contents st grid)"
    and nn: "grid \<noteq> NilGrid" by (auto simp: grid_ok_def)
  obtain r where sel: "selectSquare (contents st grid) = Ret r"
    and ff: "fewest_first (contents st grid) r"
    using selectSquare_fewest_first [of "contents st grid"] wf by (auto simp: wf_grid_def)
  have "r = - 1"
  proof (rule ccontr)
    assume "r \<noteq> - 1"
    note u = fewest_first_unfilled [OF ff this]
    from determined_le [OF wf u(2,3)] d show False by simp
  qed
  then show ?thesis using sel nn by (simp add: search_done)
qed

lemma new_gridpool_ok: "gridpool st = new_gridpool \<Longrightarrow> pool_ok st"
  by (simp add: pool_ok_def new_gridpool_def N_def)

text \<open>
  Claim C5. A \<open>fill\<close> that succeeds on a square with more than one candidate leaves
  more determined squares than there were. The grid of a call of \<open>search\<close> at a level
  has at least that many determined squares, so the level is at most 81, the call never
  reads the pool out of its bounds (it does not panic), and at level 81 it returns its
  grid at once. This holds for the pool of \<open>solveList\<close> and any well-formed grid at level 0.
\<close>

theorem search_within_pool:
  "(wf_grid g \<and> s < 81 \<and> d \<in> set DIGITS \<and> 1 < OnesCount (g ! s) \<and>
      fill n (Some g) s d = Ret (True, g') \<longrightarrow> determined g < determined g') \<and>
   (pool_ok st \<and> grid_ok st grid level \<longrightarrow> level \<le> 81 \<and> search n st grid level \<noteq> Panic) \<and>
   (pool_ok st \<and> grid_ok st grid 81 \<longrightarrow> search (Suc n) st grid 81 = Ret (grid, st)) \<and>
   (wf_grid (made st) \<and> gridpool st = new_gridpool \<longrightarrow> search n st Made 0 \<noteq> Panic)"
proof (intro conjI impI)
  assume "wf_grid g \<and> s < 81 \<and> d \<in> set DIGITS \<and> 1 < OnesCount (g ! s) \<and>
      fill n (Some g) s d = Ret (True, g')"
  then show "determined g < determined g'"
    using fill_determines [of g s d n g'] by simp
next
  assume a: "pool_ok st \<and> grid_ok st grid level"
  then have "level \<le> determined (contents st grid)" "length (contents st grid) = 81"
    by (auto simp: grid_ok_def wf_grid_def)
  then show "level \<le> 81" using determined_max [of "contents st grid"] by simp
  from search_safe [of n] a have "search_ok level st (search n st grid level)"
    by (simp add: search_safe_def)
  then show "search n st grid level \<noteq> Panic" by (auto simp: search_ok_def)
next
  assume "pool_ok st \<and> grid_ok st grid 81"
  then show "search (Suc n) st grid 81 = Ret (grid, st)" using search_full by blast
next
  assume a: "wf_grid (made st) \<and> gridpool st = new_gridpool"
  then have "pool_ok st" "grid_ok st Made 0"
    by (auto simp: new_gridpool_ok grid_ok_def contents_def)
  with search_safe [of n] have "search_ok 0 st (search n st Made 0)"
    by (simp add: search_safe_def)
  then show "search n st Made 0 \<noteq> Panic" by (auto simp: search_ok_def)
qed

lemma determined_solution: "determined norvig_solution = 81"
  by code_simp

lemma determined_first: "determined (replicate 81 511) = 0 \<and> determined twice_one_first = 1"
  by code_simp

theorem search_within_pool_witness:
  "determined (replicate 81 511) < determined twice_one_first \<and>
   search 150 \<lparr>made = norvig_solution, gridpool = new_gridpool, backtracks = 0\<rparr> Made 0 \<noteq> Panic \<and>
   search (Suc 0) \<lparr>made = norvig_solution, gridpool = new_gridpool, backtracks = 0\<rparr> Made 81
     = Ret (Made, \<lparr>made = norvig_solution, gridpool = new_gridpool, backtracks = 0\<rparr>)"
proof -
  let ?st = "\<lparr>made = norvig_solution, gridpool = new_gridpool, backtracks = 0\<rparr>"
  have w0: "wf_grid (replicate 81 511)" by (simp add: wf_grid_def ALL_DIGITS_def)
  have d1: "1 \<in> set DIGITS" by (simp add: DIGITS_def)
  have c: "1 < OnesCount (replicate 81 511 ! 0)" by (simp add: OnesCount_numeral)
  have ws: "wf_grid (made ?st)" by (simp add: wf_grid_def norvig_solution_def ALL_DIGITS_def)
  have p: "pool_ok ?st" by (simp add: new_gridpool_ok)
  have g: "grid_ok ?st Made 81"
    using ws determined_solution by (simp add: grid_ok_def contents_def)
  from search_within_pool [of "replicate 81 511" 0 1 150 twice_one_first ?st Made 81]
    w0 d1 c fill_twice_one_first
  have a: "determined (replicate 81 511) < determined twice_one_first" by simp
  from search_within_pool [of "replicate 81 511" 0 1 150 twice_one_first ?st Made 81] ws
  have b: "search 150 ?st Made 0 \<noteq> Panic" by simp
  from search_within_pool [of "replicate 81 511" 0 1 0 twice_one_first ?st Made 81] p g
  have c: "search (Suc 0) ?st Made 81 = Ret (Made, ?st)" by simp
  from a b c show ?thesis by simp
qed

section \<open>Filling a square\<close>

lemma PEERS_sorted:
  "map sort PEERS = map peers_of [0 ..< 81] \<and> list_all (\<lambda>ps. length ps = 20) PEERS"
  by code_simp

lemma PEERS_peers:
  assumes "s < 81"
  shows "length (PEERS ! s) = 20" "distinct (PEERS ! s)"
    "set (PEERS ! s) = {t. t < 81 \<and> t \<noteq> s \<and> same_unit s t}"
proof -
  have len: "length PEERS = 81" using PEERS_range by simp
  have "map sort PEERS ! s = map peers_of [0 ..< 81] ! s" using PEERS_sorted by simp
  then have a: "sort (PEERS ! s) = peers_of s" using assms len by simp
  have "PEERS ! s \<in> set PEERS" using assms len by simp
  then show "length (PEERS ! s) = 20" using PEERS_sorted by (simp add: list_all_iff)
  have "distinct (sort (PEERS ! s))" unfolding a peers_of_def by simp
  then show "distinct (PEERS ! s)" by simp
  have "set (PEERS ! s) = set (sort (PEERS ! s))" by simp
  also have "\<dots> = {t. t < 81 \<and> t \<noteq> s \<and> same_unit s t}" unfolding a peers_of_def by auto
  finally show "set (PEERS ! s) = {t. t < 81 \<and> t \<noteq> s \<and> same_unit s t}" .
qed

lemma fill_peers_each: "fill_peers n grid ps d = eliminate_each n grid ps d"
  by (induction ps arbitrary: grid) (auto split: res.splits)

text \<open>
  Claim C8. On a grid of 81 squares \<open>fill\<close> at square \<open>s\<close> with digit \<open>d\<close> fails, leaving
  the grid as it was, when \<open>d\<close> is not a candidate of \<open>s\<close>. Otherwise it sets square \<open>s\<close>
  to \<open>d\<close> alone and eliminates \<open>d\<close> at each peer of \<open>s\<close> in turn, failing at the first
  elimination that fails and succeeding with the resulting grid when none does. The peers
  of \<open>s\<close> are the 20 other squares that share a row, a column or a block with \<open>s\<close>. On a
  well-formed grid and a digit of \<open>DIGITS\<close> no read is out of bounds.
\<close>

theorem fill_spec:
  assumes "length grid = 81" "s < 81"
  shows "fill (Suc n) (Some grid) s d =
      (if grid ! s AND d = 0 then Ret (False, grid)
       else eliminate_each n (grid[s := d]) (PEERS ! s) d) \<and>
    length (PEERS ! s) = 20 \<and> distinct (PEERS ! s) \<and>
    set (PEERS ! s) = {t. t < 81 \<and> t \<noteq> s \<and> same_unit s t} \<and>
    (wf_grid grid \<and> d \<in> set DIGITS \<longrightarrow> fill (Suc n) (Some grid) s d \<noteq> Panic)"
proof -
  have "fill (Suc n) (Some grid) s d =
      (if grid ! s AND d = 0 then Ret (False, grid)
       else eliminate_each n (grid[s := d]) (PEERS ! s) d)"
    using assms rd_PEERS_range(1) [OF assms(2)] by (simp add: rd_nth fill_peers_each)
  moreover have "wf_grid grid \<and> d \<in> set DIGITS \<longrightarrow> fill (Suc n) (Some grid) s d \<noteq> Panic"
    using fill_step_ok [of grid s d "Suc n"] assms(2) by (auto simp: step_ok_def)
  ultimately show ?thesis using PEERS_peers [OF assms(2)] by simp
qed

theorem fill_spec_witness:
  "eliminate_each 149 ((replicate 81 511)[0 := 1]) (PEERS ! 0) 1 = Ret (True, twice_one_first) \<and>
   length (PEERS ! 0) = 20 \<and>
   fill (Suc 149) (Some twice_one_first) 1 1 = Ret (False, twice_one_first)"
proof -
  have f: "fill (Suc 149) (Some (replicate 81 511)) 0 1 = Ret (True, twice_one_first)"
    using fill_twice_one_first unfolding fuel_150 .
  have g: "fill (Suc 149) (Some twice_one_first) 1 1 = Ret (False, twice_one_first)"
    using fill_twice_one_second unfolding fuel_150 .
  have l: "length (replicate 81 (511::int)) = 81" by (rule length_replicate)
  have "replicate 81 (511::int) ! 0 = 511" by (rule nth_replicate) simp
  then have ne: "replicate 81 (511::int) ! 0 AND 1 \<noteq> 0" by simp
  have z: "(0::nat) < 81" by simp
  from fill_spec [OF l z, of 149 1] f ne
  have "eliminate_each 149 ((replicate 81 511)[0 := 1]) (PEERS ! 0) 1 = Ret (True, twice_one_first)"
    and "length (PEERS ! 0) = 20" by (simp_all only: if_False)
  with g show ?thesis by (simp only: simp_thms)
qed

section \<open>The candidates that the search tries\<close>

lemma search_digits_try:
  "pool_ok st \<Longrightarrow> grid_ok st grid level \<Longrightarrow> s < 81 \<Longrightarrow>
   OnesCount (contents st grid ! s) \<noteq> 1 \<Longrightarrow> set ds \<subseteq> set DIGITS \<Longrightarrow>
   search_digits n st grid s level ds =
     try_each n st (contents st grid) s level [d \<leftarrow> ds. d AND contents st grid ! s > 0]"
proof (induction ds arbitrary: st)
  case Nil
  then show ?case by simp
next
  case (Cons d ds)
  let ?g = "contents st grid"
  from Cons.prems have wf: "wf_grid ?g" and lv: "level \<le> determined ?g"
    and ref: "grid = Made \<or> (\<exists>k<level. grid = Slot k)" by (auto simp: grid_ok_def)
  have r: "rd ?g s = Ret (?g ! s)" using wf Cons.prems(3) by (rule wf_grid_rd)
  from Cons.prems have ds: "set ds \<subseteq> set DIGITS" and d: "d \<in> set DIGITS" by auto
  show ?case
  proof (cases "d AND ?g ! s > 0")
    case False
    then show ?thesis using r Cons.IH [OF Cons.prems(1-4) ds] by simp
  next
    case True
    from determined_le [OF wf Cons.prems(3,4)] lv have l81: "level < 81" by simp
    let ?slot = "gridpool st ! level"
    have pr: "rd (gridpool st) level = Ret ?slot"
      using Cons.prems(1) l81 by (simp add: rd_nth pool_ok_def)
    have "length ?slot = 81" using Cons.prems(1) l81 by (simp add: pool_ok_def)
    then have cp: "copy_into ?slot ?g = ?g" using wf by (simp add: copy_into_same wf_grid_def)
    have fo: "step_ok ?g (fill n (Some ?g) s d)" using wf Cons.prems(3) d by (rule fill_step_ok)
    show ?thesis
    proof (cases "fill n (Some ?g) s d")
      case Diverge
      then show ?thesis using r True pr cp by simp
    next
      case Panic
      then show ?thesis using r True pr cp by simp
    next
      case (Ret x)
      obtain ok g' where x: "x = (ok, g')" by (cases x)
      from Ret obtain m where n: "n = Suc m" by (cases n) auto
      from fo Ret x have wf': "wf_grid g'" by (simp add: step_ok_def)
      let ?st2 = "st\<lparr>gridpool := (gridpool st)[level := g']\<rparr>"
      let ?next = "if ok then Slot level else NilGrid"
      let ?inner = "search n ?st2 ?next (level + 1)"
      have p2: "pool_ok ?st2"
        using Cons.prems(1) wf'
        by (auto simp: pool_ok_def wf_grid_def dest!: set_update_subset_insert [THEN subsetD])
      have c2: "contents ?st2 (Slot level) = g'"
        using Cons.prems(1) l81 by (simp add: contents_def pool_ok_def)
      have g2: "?next = NilGrid \<or> grid_ok ?st2 ?next (level + 1)"
      proof (cases ok)
        case True
        from fill_determines [OF wf Cons.prems(3) d Cons.prems(4)] Ret x True
        have "determined ?g < determined g'" by simp
        with lv have "level + 1 \<le> determined g'" by simp
        then show ?thesis using True wf' c2 by (simp add: grid_ok_def)
      next
        case False
        then show ?thesis by simp
      qed
      have so: "search_ok (level + 1) ?st2 ?inner"
        by (rule search_safe [of n, unfolded search_safe_def, rule_format, OF p2 g2])
      have same: "(if ok then search n ?st2 (Slot level) (level + 1) else Ret (NilGrid, ?st2)) = ?inner"
        using n by simp
      have lhs: "search_digits n st grid s level (d # ds) =
          (case ?inner of
             Ret (result, st') \<Rightarrow>
               if result \<noteq> NilGrid then Ret (result, st')
               else search_digits n (st'\<lparr>backtracks := backtracks st' + 1\<rparr>) grid s level ds
           | Panic \<Rightarrow> Panic
           | Diverge \<Rightarrow> Diverge)"
        using r True pr cp Ret x by simp
      have rhs: "try_each n st ?g s level [e \<leftarrow> d # ds. e AND ?g ! s > 0] =
          (case ?inner of
             Ret (result, st') \<Rightarrow>
               if result \<noteq> NilGrid then Ret (result, st')
               else try_each n (st'\<lparr>backtracks := backtracks st' + 1\<rparr>) ?g s level
                      [e \<leftarrow> ds. e AND ?g ! s > 0]
           | Panic \<Rightarrow> Panic
           | Diverge \<Rightarrow> Diverge)"
        using True Ret x by (simp only: filter.simps if_True try_each.simps res.case prod.case same)
      show ?thesis
      proof (cases ?inner)
        case Diverge
        then show ?thesis unfolding lhs rhs by simp
      next
        case Panic
        then show ?thesis unfolding lhs rhs by simp
      next
        case inner: (Ret y)
        obtain result st' where y: "y = (result, st')" by (cases y)
        from so inner y have fr: "pool_ok st'" "made st' = made st"
          "\<forall>k<level. gridpool st' ! k = gridpool st ! k"
          by (auto simp: search_ok_def)
        show ?thesis
        proof (cases "result = NilGrid")
          case False
          then show ?thesis unfolding lhs rhs using inner y by simp
        next
          case nil: True
          let ?st3 = "st'\<lparr>backtracks := backtracks st' + 1\<rparr>"
          have m3: "made ?st3 = made st" "\<forall>k<level. gridpool ?st3 ! k = gridpool st ! k"
            using fr by auto
          have c3: "contents ?st3 grid = ?g" by (rule contents_frame [OF ref m3])
          have p3: "pool_ok ?st3" using fr(1) by (simp add: pool_ok_def)
          have g3: "grid_ok ?st3 grid level"
            using Cons.prems(2) c3 by (simp add: grid_ok_def)
          have "OnesCount (contents ?st3 grid ! s) \<noteq> 1" using Cons.prems(4) c3 by simp
          from Cons.IH [OF p3 g3 Cons.prems(3) this ds]
          have "search_digits n ?st3 grid s level ds =
            try_each n ?st3 ?g s level [e \<leftarrow> ds. e AND ?g ! s > 0]" by (simp only: c3)
          then show ?thesis unfolding lhs rhs using inner y nil by simp
        qed
      qed
    qed
  qed
qed

lemma DIGITS_increasing: "sorted_wrt (<) DIGITS"
  by code_simp

text \<open>
  Claim C7. A call of \<open>search\<close> on the made grid or a slot below its level, with the pool
  of 81 grids, whose \<open>selectSquare\<close> returns the square \<open>s\<close>, tries the candidate digits of
  \<open>s\<close> in increasing order as \<open>try_each\<close> describes: each on a copy of the grid in slot
  \<open>level\<close>, returning the first solution found and trying no digit after it, and adding
  one to the count of backtracks for each digit that failed. The grid itself is not changed
  by the digits tried before, so every digit is tried on the grid of the call.
\<close>

theorem search_tries_candidates:
  assumes "pool_ok st" "grid_ok st grid level" "selectSquare (contents st grid) = Ret (int s)"
  shows "search (Suc n) st grid level =
      try_each n st (contents st grid) s level (candidate_digits (contents st grid) s) \<and>
    sorted_wrt (<) (candidate_digits (contents st grid) s) \<and>
    set (candidate_digits (contents st grid) s) \<subseteq> set DIGITS"
proof -
  let ?g = "contents st grid"
  from assms(2) have wf: "wf_grid ?g" and ne: "grid \<noteq> NilGrid" by (auto simp: grid_ok_def)
  from selectSquare_fewest_first [of ?g] wf assms(3)
  have ff: "fewest_first ?g (int s)" by (auto simp: wf_grid_def)
  have "int s \<noteq> - 1" by simp
  note u = fewest_first_unfilled [OF ff this]
  have "search (Suc n) st grid level = search_digits n st grid s level DIGITS"
    using ne assms(3) by (cases grid) simp_all
  also have "\<dots> = try_each n st ?g s level (candidate_digits ?g s)"
    unfolding candidate_digits_def
    using search_digits_try [OF assms(1,2), of s DIGITS n] u(2,3) by simp
  finally show ?thesis
    using DIGITS_increasing by (simp add: candidate_digits_def sorted_wrt_filter)
qed


lemma select_open_first: "selectSquare open_first = Ret 0"
  by code_simp

lemma candidate_digits_open_first: "candidate_digits open_first 0 = [1, 8]"
  by code_simp

lemma fill_open_first:
  "fill 150 (Some open_first) 0 1 = Ret (False, open_first[0 := 1, 5 := 0])"
  "fill 150 (Some open_first) 0 8 = Ret (True, norvig_solution)"
  by (simp_all only: open_first_def norvig_solution_def run_rules cong: run_congs)

lemma try_open_first:
  "try_each 150 \<lparr>made = open_first, gridpool = new_gridpool, backtracks = 0\<rparr> open_first 0 0 [1, 8]
     = Ret (Slot 0,
         \<lparr>made = open_first, gridpool = new_gridpool[0 := norvig_solution], backtracks = 1\<rparr>)"
proof -
  let ?st2 = "\<lparr>made = open_first, gridpool = new_gridpool[0 := norvig_solution], backtracks = 1\<rparr>"
  have "contents ?st2 (Slot 0) = norvig_solution"
    by (simp add: contents_def new_gridpool_def N_def)
  then have "selectSquare (contents ?st2 (Slot 0)) = Ret (- 1)"
    by (simp only: select_norvig_solution)
  from search_done [OF _ this, of 149 1]
  have "search 150 ?st2 (Slot 0) 1 = Ret (Slot 0, ?st2)"
    by (simp only: fuel_150 [symmetric] gref.distinct simp_thms)
  then show ?thesis
    by (simp add: fill_open_first)
qed

theorem search_tries_candidates_witness:
  "search (Suc 150) \<lparr>made = open_first, gridpool = new_gridpool, backtracks = 0\<rparr> Made 0
     = Ret (Slot 0,
         \<lparr>made = open_first, gridpool = new_gridpool[0 := norvig_solution], backtracks = 1\<rparr>) \<and>
   candidate_digits open_first 0 = [1, 8]"
proof -
  let ?st = "\<lparr>made = open_first, gridpool = new_gridpool, backtracks = 0\<rparr>"
  have p: "pool_ok ?st" by (simp add: new_gridpool_ok)
  have c: "contents ?st Made = open_first" by (simp add: contents_def)
  have "wf_grid open_first"
    by (simp add: wf_grid_def open_first_def norvig_solution_def ALL_DIGITS_def)
  then have g: "grid_ok ?st Made 0" by (simp add: grid_ok_def c)
  have s: "selectSquare (contents ?st Made) = Ret (int 0)"
    by (simp only: c select_open_first int_nat_numeral)
  from search_tries_candidates [OF p g s, of 150]
  show ?thesis
    by (simp only: c candidate_digits_open_first try_open_first simp_thms)
qed

end
